theory Spec2Isabelle
  imports Main
begin

section \<open>Node model\<close>

text \<open>
  An \<^verbatim>\<open>AbstractNode*\<close> is an address; \<^verbatim>\<open>nullptr\<close> is address 0. The heap maps the
  address of every live node object to the object; an address outside its domain holds
  no object (never allocated, or deleted).
\<close>

type_synonym addr = nat

definition nullptr :: addr where
  "nullptr = 0"

text \<open>
  Modelled from the spec: the enumeration \<^verbatim>\<open>kind_e\<close> is declared in a header that is not
  among the sources; these are the kinds the specification lists, under the names the
  translator's \<^verbatim>\<open>switch\<close> uses.
\<close>

datatype kind_e =
    BVADD_NODE | BVAND_NODE | BVASHR_NODE | BVLSHR_NODE | BVMUL_NODE | BVNAND_NODE
  | BVNEG_NODE | BVNOR_NODE | BVNOT_NODE | BVOR_NODE | BVROL_NODE | BVROR_NODE
  | BVSDIV_NODE | BVSGE_NODE | BVSGT_NODE | BVSHL_NODE | BVSLE_NODE | BVSLT_NODE
  | BVSMOD_NODE | BVSREM_NODE | BVSUB_NODE | BVUDIV_NODE | BVUGE_NODE | BVUGT_NODE
  | BVULE_NODE | BVULT_NODE | BVUREM_NODE | BVXNOR_NODE | BVXOR_NODE | BV_NODE
  | CONCAT_NODE | DECIMAL_NODE | DISTINCT_NODE | EQUAL_NODE | EXTRACT_NODE | ITE_NODE
  | LAND_NODE | LET_NODE | LNOT_NODE | LOR_NODE | REFERENCE_NODE | STRING_NODE
  | SX_NODE | VARIABLE_NODE | ZX_NODE

text \<open>
  Modelled from the spec: the class \<^verbatim>\<open>SymbolicVariable\<close> is not among the sources; the
  record holds what the code reads of it: \<^verbatim>\<open>getId\<close>, \<^verbatim>\<open>getName\<close>, \<^verbatim>\<open>getSize\<close>.
\<close>

record SymbolicVariable =
  getId :: nat
  getName :: string
  getSize :: nat

text \<open>
  Modelled from the spec: the node classes are declared in files that are not among
  the sources. The classes the code casts to carry a payload and, as the specification
  says of leaves and of \<^verbatim>\<open>REFERENCE\<close>, no children: \<^verbatim>\<open>DecimalNode\<close> its value,
  \<^verbatim>\<open>StringNode\<close> its string, \<^verbatim>\<open>VariableNode\<close> its symbolic variable and the value
  \<^verbatim>\<open>evaluate()\<close> returns, \<^verbatim>\<open>ReferenceNode\<close> the address that
  \<^verbatim>\<open>getSymbolicExpression().getAst()\<close> returns. Every other class is a kind with its
  vector of children.
\<close>

datatype AbstractNode =
    DecimalNode nat
  | StringNode string
  | VariableNode SymbolicVariable nat
  | ReferenceNode addr
  | AstNode kind_e "addr list"

fun getKind :: "AbstractNode \<Rightarrow> kind_e" where
  "getKind (DecimalNode v) = DECIMAL_NODE"
| "getKind (StringNode s) = STRING_NODE"
| "getKind (VariableNode var ev) = VARIABLE_NODE"
| "getKind (ReferenceNode a) = REFERENCE_NODE"
| "getKind (AstNode k cs) = k"

fun getChildren :: "AbstractNode \<Rightarrow> addr list" where
  "getChildren (AstNode k cs) = cs"
| "getChildren nd = []"

type_synonym heap = "addr \<rightharpoonup> AbstractNode"

text \<open>
  Exceptions and undefined behaviour as values. \<open>Undefined\<close> stands for what C++ leaves
  undefined: reading through a null or dangling pointer, deleting an address that holds
  no object, indexing a vector out of range, a \<^verbatim>\<open>reinterpret_cast\<close> to a class the
  object does not have.
\<close>

datatype error =
    AlreadyExists      \<comment> \<open>"Can't register this variable as it already exists"\<close>
  | NodeCannotBeNull   \<comment> \<open>"node cannot be null."\<close>
  | InvalidKind        \<comment> \<open>"Invalid kind of node."\<close>
  | SymbolsNotFound    \<comment> \<open>"[STRING_NODE] Symbols not found."\<close>
  | OnlyOnBool         \<comment> \<open>"... can be apply only on bool value."\<close>
  | VariableIsNull     \<comment> \<open>"[VARIABLE_NODE] Can't get the symbolic variable (nullptr)."\<close>
  | NotNumerical       \<comment> \<open>"The ast is not a numerical value."\<close>
  | OutOfRange         \<comment> \<open>\<^verbatim>\<open>std::out_of_range\<close> of \<^verbatim>\<open>unordered_map::at\<close>\<close>
  | Z3Error            \<comment> \<open>the solver rejects the arguments of a call\<close>
  | Undefined

section \<open>The node collector (astGarbageCollector.cpp)\<close>

text \<open>
  The class is declared in a header that is not among the sources; its members are the
  three the code uses: a \<^verbatim>\<open>std::set\<close> of node pointers, a \<^verbatim>\<open>std::map\<close> from names to
  node pointers, and the flag.
\<close>

record AstGarbageCollector =
  allocatedNodes :: "addr set"
  variableNodes :: "string \<rightharpoonup> addr"
  backupFlag :: bool

text \<open>The constructor \<^verbatim>\<open>AstGarbageCollector(bool isBackup)\<close>: empty containers.\<close>

definition AstGarbageCollector_new :: "bool \<Rightarrow> AstGarbageCollector" where
  "AstGarbageCollector_new isBackup =
     \<lparr>allocatedNodes = {}, variableNodes = Map.empty, backupFlag = isBackup\<rparr>"

text \<open>\<^verbatim>\<open>delete p\<close>: nothing for the null pointer, undefined where \<open>p\<close> holds no object.\<close>

definition delete_node :: "addr \<Rightarrow> heap \<Rightarrow> error + heap" where
  "delete_node p h =
     (if p = nullptr then Inr h
      else if h p = None then Inl Undefined
      else Inr (h(p := None)))"

text \<open>
  A \<^verbatim>\<open>for\<close> loop over a container, stopping at the first failure. A \<^verbatim>\<open>std::set\<close> of
  pointers is walked in ascending order: \<open>sorted_list_of_set\<close>.
\<close>

fun foreach :: "('a \<Rightarrow> 's \<Rightarrow> error + 's) \<Rightarrow> 'a list \<Rightarrow> 's \<Rightarrow> error + 's" where
  "foreach f [] s = Inr s"
| "foreach f (x # xs) s = (case f x s of Inl e \<Rightarrow> Inl e | Inr s' \<Rightarrow> foreach f xs s')"

definition copy ::
  "AstGarbageCollector \<Rightarrow> AstGarbageCollector \<Rightarrow> heap \<Rightarrow> error + AstGarbageCollector \<times> heap"
where
  "copy this other h =
     (case foreach (\<lambda>it h1. if it \<notin> allocatedNodes other then delete_node it h1 else Inr h1)
             (sorted_list_of_set (allocatedNodes this)) h of
        Inl e \<Rightarrow> Inl e
      | Inr h' \<Rightarrow>
          Inr (this\<lparr>allocatedNodes := allocatedNodes other,
                     backupFlag := True,
                     variableNodes := variableNodes other\<rparr>, h'))"

text \<open>\<^verbatim>\<open>operator=\<close> is \<^verbatim>\<open>copy\<close>; the copy constructor is \<^verbatim>\<open>copy\<close> on an object whose
  containers are still empty.\<close>

definition assign ::
  "AstGarbageCollector \<Rightarrow> AstGarbageCollector \<Rightarrow> heap \<Rightarrow> error + AstGarbageCollector \<times> heap"
where
  "assign this other h = copy this other h"

definition AstGarbageCollector_copy ::
  "AstGarbageCollector \<Rightarrow> heap \<Rightarrow> error + AstGarbageCollector \<times> heap"
where
  "AstGarbageCollector_copy other h = copy (AstGarbageCollector_new False) other h"

definition freeAllAstNodes ::
  "AstGarbageCollector \<Rightarrow> heap \<Rightarrow> error + AstGarbageCollector \<times> heap"
where
  "freeAllAstNodes this h =
     (case foreach delete_node (sorted_list_of_set (allocatedNodes this)) h of
        Inl e \<Rightarrow> Inl e
      | Inr h' \<Rightarrow> Inr (this\<lparr>variableNodes := Map.empty, allocatedNodes := {}\<rparr>, h'))"

text \<open>The destructor: what is left of the heap once the collector is gone.\<close>

definition destructor :: "AstGarbageCollector \<Rightarrow> heap \<Rightarrow> error + heap" where
  "destructor this h =
     (if backupFlag this = False
      then (case freeAllAstNodes this h of Inl e \<Rightarrow> Inl e | Inr (g, h') \<Rightarrow> Inr h')
      else Inr h)"

text \<open>\<^verbatim>\<open>getVarName\<close> after the cast to \<^verbatim>\<open>VariableNode*\<close>; \<open>None\<close> where the object is none.\<close>

fun getVarName :: "AbstractNode \<Rightarrow> string option" where
  "getVarName (VariableNode var ev) = Some (getName var)"
| "getVarName nd = None"

definition freeAstNodes_body ::
  "addr \<Rightarrow> AstGarbageCollector \<times> heap \<Rightarrow> error + AstGarbageCollector \<times> heap"
where
  "freeAstNodes_body it s =
     (let (this, h) = s;
          this1 = this\<lparr>allocatedNodes := allocatedNodes this - {it}\<rparr>
      in if it = nullptr then Inl Undefined
         else case h it of
           None \<Rightarrow> Inl Undefined
         | Some nd \<Rightarrow>
             if getKind nd = VARIABLE_NODE
             then (case getVarName nd of
                     None \<Rightarrow> Inl Undefined
                   | Some name \<Rightarrow>
                       (case delete_node it h of
                          Inl e \<Rightarrow> Inl e
                        | Inr h' \<Rightarrow>
                            Inr (this1\<lparr>variableNodes := (variableNodes this1)(name := None)\<rparr>, h')))
             else (case delete_node it h of
                     Inl e \<Rightarrow> Inl e
                   | Inr h' \<Rightarrow> Inr (this1, h')))"

text \<open>\<^verbatim>\<open>freeAstNodes\<close> takes the set by reference: the third component is the caller's set
  after the call.\<close>

definition freeAstNodes ::
  "AstGarbageCollector \<Rightarrow> heap \<Rightarrow> addr set \<Rightarrow> error + AstGarbageCollector \<times> heap \<times> addr set"
where
  "freeAstNodes this h nodes =
     (case foreach freeAstNodes_body (sorted_list_of_set nodes) (this, h) of
        Inl e \<Rightarrow> Inl e
      | Inr (this', h') \<Rightarrow> Inr (this', h', {}))"

text \<open>
  \<^verbatim>\<open>extractUniqueAstNodes\<close> recurses into the children. The fuel bounds the depth of the
  recursion: \<open>None\<close> says that the recursion goes deeper than the fuel.
\<close>

fun extractUniqueAstNodes :: "nat \<Rightarrow> heap \<Rightarrow> addr set \<Rightarrow> addr \<Rightarrow> (error + addr set) option"
and extractUniqueAstNodes_loop ::
  "nat \<Rightarrow> heap \<Rightarrow> addr set \<Rightarrow> addr list \<Rightarrow> (error + addr set) option"
where
  "extractUniqueAstNodes fuel h uniqueNodes root =
     (if root = nullptr then Some (Inr uniqueNodes)
      else case fuel of
        0 \<Rightarrow> None
      | Suc fuel' \<Rightarrow>
          (case h root of
             None \<Rightarrow> Some (Inl Undefined)
           | Some nd \<Rightarrow>
               extractUniqueAstNodes_loop fuel' h (insert root uniqueNodes) (getChildren nd)))"
| "extractUniqueAstNodes_loop fuel h uniqueNodes [] = Some (Inr uniqueNodes)"
| "extractUniqueAstNodes_loop fuel h uniqueNodes (it # its) =
     (case extractUniqueAstNodes fuel h uniqueNodes it of
        None \<Rightarrow> None
      | Some (Inl e) \<Rightarrow> Some (Inl e)
      | Some (Inr uniqueNodes') \<Rightarrow> extractUniqueAstNodes_loop fuel h uniqueNodes' its)"

definition recordAstNode :: "AstGarbageCollector \<Rightarrow> addr \<Rightarrow> addr \<times> AstGarbageCollector" where
  "recordAstNode this node = (node, this\<lparr>allocatedNodes := insert node (allocatedNodes this)\<rparr>)"

text \<open>\<^verbatim>\<open>std::map::emplace\<close>: the map afterwards and whether the pair was inserted.\<close>

definition map_emplace :: "('k \<rightharpoonup> 'v) \<Rightarrow> 'k \<Rightarrow> 'v \<Rightarrow> ('k \<rightharpoonup> 'v) \<times> bool" where
  "map_emplace m k v = (case m k of None \<Rightarrow> (m(k \<mapsto> v), True) | Some old \<Rightarrow> (m, False))"

text \<open>The result and the collector after the call, whether or not it threw.\<close>

definition recordVariableAstNode ::
  "AstGarbageCollector \<Rightarrow> string \<Rightarrow> addr \<Rightarrow> (error + unit) \<times> AstGarbageCollector"
where
  "recordVariableAstNode this name node =
     (let (m, inserted) = map_emplace (variableNodes this) name node;
          this' = this\<lparr>variableNodes := m\<rparr>
      in if \<not> inserted then (Inl AlreadyExists, this') else (Inr (), this'))"

definition getAstVariableNode :: "AstGarbageCollector \<Rightarrow> string \<Rightarrow> addr" where
  "getAstVariableNode this name =
     (case variableNodes this name of Some node \<Rightarrow> node | None \<Rightarrow> nullptr)"

section \<open>The solver\<close>

text \<open>
  Modelled from the spec: the Z3 library is not among the sources. Its handles are the
  terms its constructor functions build, one constructor of \<open>Z3_func\<close> for each API
  function the translator calls. The solver's own sort checks are left out, but for the
  ones the definitions below name.
\<close>

datatype Z3_sort = Z3_BOOL_SORT | Z3_INT_SORT | Z3_BV_SORT nat

datatype Z3_func =
    Z3_mk_bvadd | Z3_mk_bvand | Z3_mk_bvashr | Z3_mk_bvlshr | Z3_mk_bvmul | Z3_mk_bvnand
  | Z3_mk_bvnor | Z3_mk_bvor | Z3_mk_bvsdiv | Z3_mk_bvsge | Z3_mk_bvsgt | Z3_mk_bvshl
  | Z3_mk_bvsle | Z3_mk_bvslt | Z3_mk_bvsmod | Z3_mk_bvsrem | Z3_mk_bvsub | Z3_mk_bvudiv
  | Z3_mk_bvuge | Z3_mk_bvugt | Z3_mk_bvule | Z3_mk_bvult | Z3_mk_bvurem | Z3_mk_bvxnor
  | Z3_mk_bvxor | Z3_mk_eq | Z3_mk_bvneg | Z3_mk_bvnot | Z3_mk_not | Z3_mk_concat
  | Z3_mk_and | Z3_mk_or | Z3_mk_distinct | Z3_mk_ite
  | Z3_mk_sign_ext nat | Z3_mk_zero_ext nat | Z3_mk_rotate_left nat | Z3_mk_rotate_right nat
  | Z3_mk_extract nat nat

datatype Z3_ast =
    Z3_numeral nat Z3_sort
  | Z3_const string Z3_sort
  | Z3_app1 Z3_func Z3_ast
  | Z3_app2 Z3_func Z3_ast Z3_ast
  | Z3_app3 Z3_func Z3_ast Z3_ast Z3_ast

text \<open>Modelled from the spec: the functions whose results have the boolean sort.\<close>

definition bool_valued :: "Z3_func \<Rightarrow> bool" where
  "bool_valued f =
     (f \<in> {Z3_mk_bvsge, Z3_mk_bvsgt, Z3_mk_bvsle, Z3_mk_bvslt, Z3_mk_bvuge, Z3_mk_bvugt,
            Z3_mk_bvule, Z3_mk_bvult, Z3_mk_eq, Z3_mk_not, Z3_mk_and, Z3_mk_or,
            Z3_mk_distinct})"

text \<open>
  \<^verbatim>\<open>isBool\<close> (and \<^verbatim>\<open>get_sort().is_bool()\<close>): the sort of the term is the boolean sort.
  Modelled from the spec: the sort of a term; an if-then-else has the sort of its
  branches.
\<close>

fun isBool :: "Z3_ast \<Rightarrow> bool" where
  "isBool (Z3_numeral v s) = (s = Z3_BOOL_SORT)"
| "isBool (Z3_const name s) = (s = Z3_BOOL_SORT)"
| "isBool (Z3_app1 f a) = bool_valued f"
| "isBool (Z3_app2 f a b) = bool_valued f"
| "isBool (Z3_app3 f a b c) = (if f = Z3_mk_ite then isBool b else bool_valued f)"

text \<open>Modelled from the spec: \<^verbatim>\<open>is_int\<close>, the sort of the term is the integer sort; none
  of the functions above yields an integer.\<close>

fun is_int :: "Z3_ast \<Rightarrow> bool" where
  "is_int (Z3_numeral v s) = (s = Z3_INT_SORT)"
| "is_int (Z3_const name s) = (s = Z3_INT_SORT)"
| "is_int (Z3_app3 f a b c) = (if f = Z3_mk_ite then is_int b else False)"
| "is_int other = False"

text \<open>
  Modelled from the spec: \<^verbatim>\<open>Z3_mk_numeral\<close> reads a decimal string; the model keeps the
  number. A bit-vector numeral is reduced modulo \<open>2 ^ size\<close>, and the solver rejects the
  bit-vector sort of size 0.
\<close>

definition Z3_mk_numeral :: "nat \<Rightarrow> Z3_sort \<Rightarrow> error + Z3_ast" where
  "Z3_mk_numeral v s =
     (case s of
        Z3_BV_SORT n \<Rightarrow> if n = 0 then Inl Z3Error else Inr (Z3_numeral (v mod 2 ^ n) s)
      | Z3_INT_SORT \<Rightarrow> Inr (Z3_numeral v s)
      | Z3_BOOL_SORT \<Rightarrow> Inl Z3Error)"

text \<open>Modelled from the spec: a constant of the given name and sort; the bit-vector sort
  of size 0 is rejected.\<close>

definition Z3_mk_const :: "string \<Rightarrow> Z3_sort \<Rightarrow> error + Z3_ast" where
  "Z3_mk_const name s = (if s = Z3_BV_SORT 0 then Inl Z3Error else Inr (Z3_const name s))"

text \<open>
  Modelled from the spec: \<^verbatim>\<open>Z3_get_numeral_uint64\<close> writes \<open>result\<close>, which the code
  starts at 0, only for a numeral that fits 64 bits (the x86-64 branch of the code).
\<close>

fun Z3_get_numeral_uint64 :: "Z3_ast \<Rightarrow> nat" where
  "Z3_get_numeral_uint64 (Z3_numeral v s) = (if v < 2 ^ 64 then v else 0)"
| "Z3_get_numeral_uint64 other = 0"

text \<open>
  The two overloads of \<^verbatim>\<open>getUintValue\<close>: the one that takes a \<^verbatim>\<open>z3::expr\<close> throws unless
  the expression is of the integer sort; the one that takes a \<^verbatim>\<open>Z3_ast\<close> (in
  tritonToZ3Ast.New.cpp only) has no such test.
\<close>

definition getUintValue_expr :: "Z3_ast \<Rightarrow> error + nat" where
  "getUintValue_expr expr =
     (if \<not> is_int expr then Inl NotNumerical else Inr (Z3_get_numeral_uint64 expr))"

definition getUintValue_Z3_ast :: "Z3_ast \<Rightarrow> error + nat" where
  "getUintValue_Z3_ast expr = Inr (Z3_get_numeral_uint64 expr)"

text \<open>\<^verbatim>\<open>getStringValue\<close> is \<^verbatim>\<open>Z3_get_numeral_string\<close>. Modelled from the spec: the
  decimal string of a numeral (its number here); \<open>None\<close> for a term that is no numeral.\<close>

fun getStringValue :: "Z3_ast \<Rightarrow> nat option" where
  "getStringValue (Z3_numeral v s) = Some v"
| "getStringValue other = None"

text \<open>\<^verbatim>\<open>static_cast<triton::uint32>\<close> and \<^verbatim>\<open>convert_to<triton::uint32>\<close>: the low 32 bits.\<close>

definition uint32 :: "nat \<Rightarrow> nat" where
  "uint32 v = v mod 2 ^ 32"

section \<open>The translator (tritonToZ3Ast.cpp and tritonToZ3Ast.New.cpp)\<close>

text \<open>
  Both files define \<^verbatim>\<open>TritonToZ3Ast::convert\<close>. The definitions of tritonToZ3Ast.cpp
  keep their names; those of tritonToZ3Ast.New.cpp that differ carry the suffix \<open>_New\<close>.
\<close>

subsection \<open>What both files share\<close>

text \<open>Sequencing of steps that may throw.\<close>

fun bindE :: "error + 'a \<Rightarrow> ('a \<Rightarrow> error + 'b) \<Rightarrow> error + 'b" where
  "bindE (Inl e) f = Inl e"
| "bindE (Inr x) f = f x"

text \<open>
  \<^verbatim>\<open>std::unordered_map<AbstractNode*, ...>\<close>: the entries, in the order of their
  insertion. \<^verbatim>\<open>at\<close> throws for a missing key; \<^verbatim>\<open>insert\<close> and \<^verbatim>\<open>emplace\<close> leave the
  map as it is when the key is present.
\<close>

type_synonym unordered_map = "(addr \<times> Z3_ast) list"

definition um_at :: "unordered_map \<Rightarrow> addr \<Rightarrow> error + Z3_ast" where
  "um_at m k = (case map_of m k of None \<Rightarrow> Inl OutOfRange | Some v \<Rightarrow> Inr v)"

definition um_emplace :: "unordered_map \<Rightarrow> addr \<Rightarrow> Z3_ast \<Rightarrow> unordered_map" where
  "um_emplace m k v = (case map_of m k of None \<Rightarrow> m @ [(k, v)] | Some old \<Rightarrow> m)"

text \<open>
  C++ leaves the iteration order of an unordered map to the library: \<^verbatim>\<open>begin()\<close> is the
  first entry in an order of the library's choice. That order is the parameter
  \<open>iteration\<close>, a function that arranges the entries. \<^verbatim>\<open>begin()->second\<close> on an empty map
  is undefined.
\<close>

definition um_begin_second ::
  "(unordered_map \<Rightarrow> unordered_map) \<Rightarrow> unordered_map \<Rightarrow> error + Z3_ast"
where
  "um_begin_second iteration m =
     (case iteration m of [] \<Rightarrow> Inl Undefined | (k, v) # rest \<Rightarrow> Inr v)"

text \<open>
  The translator object (its class is declared in a header that is not among the
  sources; the members are the ones the code uses): the symbolic engine as the table
  \<^verbatim>\<open>getSymbolicVariableFromId\<close> reads, the flag, the symbol table of \<^verbatim>\<open>LET\<close>, and the
  solver context as the list of the terms its API calls have built, in call order (both
  files also open the solver's own log of API calls).
\<close>

record TritonToZ3Ast =
  symbolicEngine :: "nat \<rightharpoonup> SymbolicVariable"
  isEval :: bool
  symbols :: "string \<rightharpoonup> addr"
  z3context :: "Z3_ast list"

text \<open>
  The state of one \<^verbatim>\<open>convert\<close>: the translator, the local map \<^verbatim>\<open>z3expressions\<close>, and the
  nodes whose \<^verbatim>\<open>switch\<close> the loop has run, in order (tritonToZ3Ast.New.cpp prints each
  of them through \<^verbatim>\<open>NodeLogger\<close>).
\<close>

record convert_state = TritonToZ3Ast +
  z3expressions :: unordered_map
  processed :: "addr list"

text \<open>The state in which \<^verbatim>\<open>convert\<close> starts: the translator as it is, an empty map.\<close>

definition convert_start :: "TritonToZ3Ast \<Rightarrow> convert_state" where
  "convert_start this = TritonToZ3Ast.extend this (convert_state.fields [] [])"

text \<open>Reading through a node pointer: undefined for null and for an address without object.\<close>

definition deref :: "heap \<Rightarrow> addr \<Rightarrow> error + AbstractNode" where
  "deref h p =
     (if p = nullptr then Inl Undefined
      else case h p of None \<Rightarrow> Inl Undefined | Some nd \<Rightarrow> Inr nd)"

text \<open>\<^verbatim>\<open>children[i]\<close>: undefined beyond the end of the vector.\<close>

definition child :: "addr list \<Rightarrow> nat \<Rightarrow> error + addr" where
  "child children i = (if i < length children then Inr (children ! i) else Inl Undefined)"

text \<open>The payload behind a \<^verbatim>\<open>reinterpret_cast\<close>: undefined where the object is of another class.\<close>

fun DecimalNode_getValue :: "AbstractNode \<Rightarrow> error + nat" where
  "DecimalNode_getValue (DecimalNode v) = Inr v"
| "DecimalNode_getValue nd = Inl Undefined"

fun StringNode_getValue :: "AbstractNode \<Rightarrow> error + string" where
  "StringNode_getValue (StringNode s) = Inr s"
| "StringNode_getValue nd = Inl Undefined"

fun ReferenceNode_getAst :: "AbstractNode \<Rightarrow> error + addr" where
  "ReferenceNode_getAst (ReferenceNode a) = Inr a"
| "ReferenceNode_getAst nd = Inl Undefined"

fun VariableNode_getVar :: "AbstractNode \<Rightarrow> error + SymbolicVariable" where
  "VariableNode_getVar (VariableNode var ev) = Inr var"
| "VariableNode_getVar nd = Inl Undefined"

fun VariableNode_evaluate :: "AbstractNode \<Rightarrow> error + nat" where
  "VariableNode_evaluate (VariableNode var ev) = Inr ev"
| "VariableNode_evaluate nd = Inl Undefined"

text \<open>\<^verbatim>\<open>z3expressions.at(children[i])\<close>.\<close>

definition operand :: "unordered_map \<Rightarrow> addr list \<Rightarrow> nat \<Rightarrow> error + Z3_ast" where
  "operand m children i = bindE (child children i) (um_at m)"

text \<open>
  What one arm of the \<^verbatim>\<open>switch\<close> yields: the handle it passes to \<^verbatim>\<open>insert\<close> or
  \<^verbatim>\<open>emplace\<close>, the terms its solver calls have built (in call order), and the symbol
  table afterwards. Operands are read from left to right.
\<close>

type_synonym lowered = "Z3_ast \<times> Z3_ast list \<times> (string \<rightharpoonup> addr)"

definition built :: "(string \<rightharpoonup> addr) \<Rightarrow> Z3_ast \<Rightarrow> error + lowered" where
  "built syms t = Inr (t, [t], syms)"

definition found :: "(string \<rightharpoonup> addr) \<Rightarrow> Z3_ast \<Rightarrow> error + lowered" where
  "found syms t = Inr (t, [], syms)"

text \<open>The arms with two operands and with one; a kind that is not in the table of
  function pointers gives a call through a null pointer.\<close>

definition convert_binary ::
  "Z3_func option \<Rightarrow> convert_state \<Rightarrow> addr list \<Rightarrow> error + lowered"
where
  "convert_binary z3FunctionBinary st children =
     bindE (operand (z3expressions st) children 0) (\<lambda>a.
     bindE (operand (z3expressions st) children 1) (\<lambda>b.
       case z3FunctionBinary of
         None \<Rightarrow> Inl Undefined
       | Some f \<Rightarrow> built (symbols st) (Z3_app2 f a b)))"

definition convert_unary ::
  "Z3_func option \<Rightarrow> convert_state \<Rightarrow> addr list \<Rightarrow> error + lowered"
where
  "convert_unary z3FunctionUnary st children =
     bindE (operand (z3expressions st) children 0) (\<lambda>a.
       case z3FunctionUnary of
         None \<Rightarrow> Inl Undefined
       | Some f \<Rightarrow> built (symbols st) (Z3_app1 f a))"

text \<open>\<^verbatim>\<open>BVROL_NODE\<close> and \<^verbatim>\<open>BVROR_NODE\<close>: the amount is read from the \<^verbatim>\<open>DecimalNode\<close> itself.\<close>

definition convert_rotate ::
  "(nat \<Rightarrow> Z3_func) \<Rightarrow> convert_state \<Rightarrow> heap \<Rightarrow> addr list \<Rightarrow> error + lowered"
where
  "convert_rotate z3Rotate st h children =
     bindE (child children 0) (\<lambda>c0.
     bindE (deref h c0) (\<lambda>d.
     bindE (DecimalNode_getValue d) (\<lambda>op1.
     bindE (operand (z3expressions st) children 1) (\<lambda>b.
       built (symbols st) (Z3_app1 (z3Rotate (uint32 op1)) b)))))"

text \<open>The arms that read a number back from the solver take the overload of
  \<^verbatim>\<open>getUintValue\<close> their file calls.\<close>

definition convert_BV_NODE ::
  "(Z3_ast \<Rightarrow> error + nat) \<Rightarrow> convert_state \<Rightarrow> addr list \<Rightarrow> error + lowered"
where
  "convert_BV_NODE getUintValue st children =
     bindE (operand (z3expressions st) children 0) (\<lambda>val.
     bindE (operand (z3expressions st) children 1) (\<lambda>size.
     bindE (getUintValue size) (\<lambda>n.
       let bvsize = uint32 n
       in case getStringValue val of
            None \<Rightarrow> Inl Z3Error
          | Some v \<Rightarrow> bindE (Z3_mk_numeral v (Z3_BV_SORT bvsize)) (built (symbols st)))))"

text \<open>The loop of \<^verbatim>\<open>CONCAT_NODE\<close> over \<^verbatim>\<open>children[1]\<close>, \<^verbatim>\<open>children[2]\<close>, ...\<close>

fun concat_loop ::
  "unordered_map \<Rightarrow> addr list \<Rightarrow> Z3_ast \<Rightarrow> Z3_ast list \<Rightarrow> error + Z3_ast \<times> Z3_ast list"
where
  "concat_loop m [] currentValue calls = Inr (currentValue, calls)"
| "concat_loop m (c # cs) currentValue calls =
     bindE (um_at m c) (\<lambda>nextValue.
       concat_loop m cs (Z3_app2 Z3_mk_concat currentValue nextValue)
         (calls @ [Z3_app2 Z3_mk_concat currentValue nextValue]))"

definition convert_CONCAT_NODE :: "convert_state \<Rightarrow> addr list \<Rightarrow> error + lowered" where
  "convert_CONCAT_NODE st children =
     bindE (operand (z3expressions st) children 0) (\<lambda>currentValue.
     bindE (concat_loop (z3expressions st) (drop 1 children) currentValue []) (\<lambda>(v, calls).
       Inr (v, calls, symbols st)))"

definition convert_DECIMAL_NODE :: "convert_state \<Rightarrow> AbstractNode \<Rightarrow> error + lowered" where
  "convert_DECIMAL_NODE st nd =
     bindE (DecimalNode_getValue nd) (\<lambda>v.
     bindE (Z3_mk_numeral v Z3_INT_SORT) (built (symbols st)))"

definition convert_DISTINCT_NODE :: "convert_state \<Rightarrow> addr list \<Rightarrow> error + lowered" where
  "convert_DISTINCT_NODE st children =
     bindE (operand (z3expressions st) children 0) (\<lambda>op1.
     bindE (operand (z3expressions st) children 1) (\<lambda>op2.
       built (symbols st) (Z3_app2 Z3_mk_distinct op1 op2)))"

definition convert_EXTRACT_NODE ::
  "(Z3_ast \<Rightarrow> error + nat) \<Rightarrow> convert_state \<Rightarrow> addr list \<Rightarrow> error + lowered"
where
  "convert_EXTRACT_NODE getUintValue st children =
     bindE (operand (z3expressions st) children 0) (\<lambda>high.
     bindE (operand (z3expressions st) children 1) (\<lambda>low.
     bindE (operand (z3expressions st) children 2) (\<lambda>val.
     bindE (getUintValue high) (\<lambda>hn.
     bindE (getUintValue low) (\<lambda>ln.
       let hv = uint32 hn; lv = uint32 ln
       in built (symbols st) (Z3_app1 (Z3_mk_extract hv lv) val))))))"

definition convert_ITE_NODE :: "convert_state \<Rightarrow> addr list \<Rightarrow> error + lowered" where
  "convert_ITE_NODE st children =
     bindE (operand (z3expressions st) children 0) (\<lambda>op1.
     bindE (operand (z3expressions st) children 1) (\<lambda>op2.
     bindE (operand (z3expressions st) children 2) (\<lambda>op3.
       built (symbols st) (Z3_app3 Z3_mk_ite op1 op2 op3))))"

text \<open>The loop of \<^verbatim>\<open>LAND_NODE\<close> and of \<^verbatim>\<open>LOR_NODE\<close>.\<close>

fun logical_loop ::
  "Z3_func \<Rightarrow> unordered_map \<Rightarrow> addr list \<Rightarrow> Z3_ast \<Rightarrow> Z3_ast list \<Rightarrow>
     error + Z3_ast \<times> Z3_ast list"
where
  "logical_loop f m [] currentValue calls = Inr (currentValue, calls)"
| "logical_loop f m (c # cs) currentValue calls =
     bindE (um_at m c) (\<lambda>nextValue.
       if \<not> isBool nextValue then Inl OnlyOnBool
       else logical_loop f m cs (Z3_app2 f currentValue nextValue)
              (calls @ [Z3_app2 f currentValue nextValue]))"

definition convert_logical :: "Z3_func \<Rightarrow> convert_state \<Rightarrow> addr list \<Rightarrow> error + lowered" where
  "convert_logical f st children =
     bindE (operand (z3expressions st) children 0) (\<lambda>currentValue.
       if \<not> isBool currentValue then Inl OnlyOnBool
       else bindE (logical_loop f (z3expressions st) (drop 1 children) currentValue [])
              (\<lambda>(v, calls). Inr (v, calls, symbols st)))"

definition convert_LET_NODE :: "convert_state \<Rightarrow> heap \<Rightarrow> addr list \<Rightarrow> error + lowered" where
  "convert_LET_NODE st h children =
     bindE (child children 0) (\<lambda>c0.
     bindE (deref h c0) (\<lambda>s.
     bindE (StringNode_getValue s) (\<lambda>symbol.
     bindE (child children 1) (\<lambda>c1.
     bindE (operand (z3expressions st) children 2) (\<lambda>v.
       found ((symbols st)(symbol \<mapsto> c1)) v)))))"

definition convert_LNOT_NODE :: "convert_state \<Rightarrow> addr list \<Rightarrow> error + lowered" where
  "convert_LNOT_NODE st children =
     bindE (operand (z3expressions st) children 0) (\<lambda>v.
       if \<not> isBool v then Inl OnlyOnBool
       else built (symbols st) (Z3_app1 Z3_mk_not v))"

definition convert_REFERENCE_NODE :: "convert_state \<Rightarrow> AbstractNode \<Rightarrow> error + lowered" where
  "convert_REFERENCE_NODE st nd =
     bindE (ReferenceNode_getAst nd) (\<lambda>ast.
     bindE (um_at (z3expressions st) ast) (found (symbols st)))"

definition convert_STRING_NODE :: "convert_state \<Rightarrow> AbstractNode \<Rightarrow> error + lowered" where
  "convert_STRING_NODE st nd =
     bindE (StringNode_getValue nd) (\<lambda>s.
       case symbols st s of
         None \<Rightarrow> Inl SymbolsNotFound
       | Some bound \<Rightarrow> bindE (um_at (z3expressions st) bound) (found (symbols st)))"

text \<open>\<^verbatim>\<open>SX_NODE\<close> and \<^verbatim>\<open>ZX_NODE\<close>.\<close>

definition convert_extend ::
  "(nat \<Rightarrow> Z3_func) \<Rightarrow> (Z3_ast \<Rightarrow> error + nat) \<Rightarrow> convert_state \<Rightarrow> addr list \<Rightarrow>
     error + lowered"
where
  "convert_extend z3Extend getUintValue st children =
     bindE (operand (z3expressions st) children 0) (\<lambda>ext.
     bindE (operand (z3expressions st) children 1) (\<lambda>val.
     bindE (getUintValue ext) (\<lambda>n.
       let extv = uint32 n
       in built (symbols st) (Z3_app1 (z3Extend extv) val))))"

definition convert_VARIABLE_NODE :: "convert_state \<Rightarrow> AbstractNode \<Rightarrow> error + lowered" where
  "convert_VARIABLE_NODE st nd =
     bindE (VariableNode_getVar nd) (\<lambda>var.
       case symbolicEngine st (getId var) of
         None \<Rightarrow> Inl VariableIsNull
       | Some symVar \<Rightarrow>
           if isEval st
           then bindE (VariableNode_evaluate nd) (\<lambda>v.
                bindE (Z3_mk_numeral v (Z3_BV_SORT (getSize symVar))) (built (symbols st)))
           else bindE (Z3_mk_const (getName symVar) (Z3_BV_SORT (getSize symVar)))
                  (built (symbols st)))"

text \<open>
  The processing of one node, given the \<^verbatim>\<open>switch\<close> of the file. Every arm of the code
  ends in one \<^verbatim>\<open>z3expressions.insert\<close> (\<^verbatim>\<open>emplace\<close> in the New file) for the node; the
  arm yields the handle and the insertion is done here.
\<close>

definition process ::
  "(convert_state \<Rightarrow> heap \<Rightarrow> AbstractNode \<Rightarrow> error + lowered) \<Rightarrow> heap \<Rightarrow> addr \<Rightarrow>
     convert_state \<Rightarrow> error + convert_state"
where
  "process switch h node st =
     bindE (deref h node) (\<lambda>nd.
     bindE (switch st h nd) (\<lambda>(v, calls, syms).
       Inr (st\<lparr>symbols := syms,
               z3context := z3context st @ calls,
               z3expressions := um_emplace (z3expressions st) node v,
               processed := processed st @ [node]\<rparr>)))"

subsection \<open>tritonToZ3Ast.cpp\<close>

text \<open>The two tables of function pointers; \<open>None\<close> is the \<^verbatim>\<open>nullptr\<close> they return for a kind
  that is not in the table.\<close>

definition getBinaryZ3Function :: "kind_e \<Rightarrow> Z3_func option" where
  "getBinaryZ3Function kind =
     map_of [(BVADD_NODE, Z3_mk_bvadd), (BVAND_NODE, Z3_mk_bvand), (BVASHR_NODE, Z3_mk_bvashr),
             (BVLSHR_NODE, Z3_mk_bvlshr), (BVMUL_NODE, Z3_mk_bvmul), (BVNAND_NODE, Z3_mk_bvnand),
             (BVNOR_NODE, Z3_mk_bvnor), (BVOR_NODE, Z3_mk_bvor), (BVSDIV_NODE, Z3_mk_bvsdiv),
             (BVSGE_NODE, Z3_mk_bvsge), (BVSGT_NODE, Z3_mk_bvsgt), (BVSHL_NODE, Z3_mk_bvshl),
             (BVSLE_NODE, Z3_mk_bvsle), (BVSLT_NODE, Z3_mk_bvslt), (BVSMOD_NODE, Z3_mk_bvsmod),
             (BVSREM_NODE, Z3_mk_bvsrem), (BVSUB_NODE, Z3_mk_bvsub), (BVUDIV_NODE, Z3_mk_bvudiv),
             (BVUGE_NODE, Z3_mk_bvuge), (BVULE_NODE, Z3_mk_bvule),
             (BVULT_NODE, Z3_mk_bvult), (BVUREM_NODE, Z3_mk_bvurem), (BVXNOR_NODE, Z3_mk_bvxnor),
             (BVXOR_NODE, Z3_mk_bvxor), (EQUAL_NODE, Z3_mk_eq)] kind"

definition getUnaryZ3Function :: "kind_e \<Rightarrow> Z3_func option" where
  "getUnaryZ3Function kind = map_of [(BVNEG_NODE, Z3_mk_bvneg), (BVNOT_NODE, Z3_mk_bvnot)] kind"

text \<open>\<^verbatim>\<open>NodeHasRightChild\<close>: \<open>child\<close> is one of \<^verbatim>\<open>children[1]\<close>, \<^verbatim>\<open>children[2]\<close>, ...\<close>

definition NodeHasRightChild :: "heap \<Rightarrow> addr \<Rightarrow> addr \<Rightarrow> error + bool" where
  "NodeHasRightChild h node c =
     bindE (deref h node) (\<lambda>nd. Inr (c \<in> set (drop 1 (getChildren nd))))"

text \<open>
  The \<^verbatim>\<open>switch\<close> of tritonToZ3Ast.cpp. It has no arm for \<^verbatim>\<open>BVUGT_NODE\<close>, which falls to
  \<^verbatim>\<open>default\<close>.
\<close>

definition switch_kind :: "convert_state \<Rightarrow> heap \<Rightarrow> AbstractNode \<Rightarrow> error + lowered" where
  "switch_kind st h nd =
     (let children = getChildren nd;
          z3FunctionBinary = getBinaryZ3Function (getKind nd);
          z3FunctionUnary = getUnaryZ3Function (getKind nd)
      in case getKind nd of
        BVADD_NODE \<Rightarrow> convert_binary z3FunctionBinary st children
      | BVAND_NODE \<Rightarrow> convert_binary z3FunctionBinary st children
      | BVASHR_NODE \<Rightarrow> convert_binary z3FunctionBinary st children
      | BVLSHR_NODE \<Rightarrow> convert_binary z3FunctionBinary st children
      | BVMUL_NODE \<Rightarrow> convert_binary z3FunctionBinary st children
      | BVNAND_NODE \<Rightarrow> convert_binary z3FunctionBinary st children
      | BVNOR_NODE \<Rightarrow> convert_binary z3FunctionBinary st children
      | BVOR_NODE \<Rightarrow> convert_binary z3FunctionBinary st children
      | BVSDIV_NODE \<Rightarrow> convert_binary z3FunctionBinary st children
      | BVSGE_NODE \<Rightarrow> convert_binary z3FunctionBinary st children
      | BVSGT_NODE \<Rightarrow> convert_binary z3FunctionBinary st children
      | BVSHL_NODE \<Rightarrow> convert_binary z3FunctionBinary st children
      | BVSLE_NODE \<Rightarrow> convert_binary z3FunctionBinary st children
      | BVSLT_NODE \<Rightarrow> convert_binary z3FunctionBinary st children
      | BVSMOD_NODE \<Rightarrow> convert_binary z3FunctionBinary st children
      | BVSREM_NODE \<Rightarrow> convert_binary z3FunctionBinary st children
      | BVSUB_NODE \<Rightarrow> convert_binary z3FunctionBinary st children
      | BVUDIV_NODE \<Rightarrow> convert_binary z3FunctionBinary st children
      | BVUGE_NODE \<Rightarrow> convert_binary z3FunctionBinary st children
      | BVULE_NODE \<Rightarrow> convert_binary z3FunctionBinary st children
      | BVULT_NODE \<Rightarrow> convert_binary z3FunctionBinary st children
      | BVUREM_NODE \<Rightarrow> convert_binary z3FunctionBinary st children
      | BVXNOR_NODE \<Rightarrow> convert_binary z3FunctionBinary st children
      | BVXOR_NODE \<Rightarrow> convert_binary z3FunctionBinary st children
      | EQUAL_NODE \<Rightarrow> convert_binary z3FunctionBinary st children
      | BVNEG_NODE \<Rightarrow> convert_unary z3FunctionUnary st children
      | BVNOT_NODE \<Rightarrow> convert_unary z3FunctionUnary st children
      | BVROL_NODE \<Rightarrow> convert_rotate Z3_mk_rotate_left st h children
      | BVROR_NODE \<Rightarrow> convert_rotate Z3_mk_rotate_right st h children
      | BV_NODE \<Rightarrow> convert_BV_NODE getUintValue_expr st children
      | CONCAT_NODE \<Rightarrow> convert_CONCAT_NODE st children
      | DECIMAL_NODE \<Rightarrow> convert_DECIMAL_NODE st nd
      | DISTINCT_NODE \<Rightarrow> convert_DISTINCT_NODE st children
      | EXTRACT_NODE \<Rightarrow> convert_EXTRACT_NODE getUintValue_expr st children
      | ITE_NODE \<Rightarrow> convert_ITE_NODE st children
      | LAND_NODE \<Rightarrow> convert_logical Z3_mk_and st children
      | LET_NODE \<Rightarrow> convert_LET_NODE st h children
      | LNOT_NODE \<Rightarrow> convert_LNOT_NODE st children
      | LOR_NODE \<Rightarrow> convert_logical Z3_mk_or st children
      | REFERENCE_NODE \<Rightarrow> convert_REFERENCE_NODE st nd
      | STRING_NODE \<Rightarrow> convert_STRING_NODE st nd
      | SX_NODE \<Rightarrow> convert_extend Z3_mk_sign_ext getUintValue_expr st children
      | VARIABLE_NODE \<Rightarrow> convert_VARIABLE_NODE st nd
      | ZX_NODE \<Rightarrow> convert_extend Z3_mk_zero_ext getUintValue_expr st children
      | BVUGT_NODE \<Rightarrow> Inl InvalidKind)"

text \<open>
  The \<^verbatim>\<open>do ... while\<close> loop of \<^verbatim>\<open>convert\<close> with its inner \<^verbatim>\<open>while (node)\<close>, one step per
  unit of fuel. The work stack has its top first. With \<open>node\<close> not null the step is one
  round of the inner loop: it pushes \<^verbatim>\<open>children[1]\<close>, \<^verbatim>\<open>children[2]\<close>, ... and then the
  node, and goes on with the first child, with the referenced node, or with null. With
  \<open>node\<close> null the step pops the top and either swaps it with a right child that lies
  under it, or processes it; the loop ends when the stack is empty after a node has
  been processed. The loop need not end (a reference may lead back to a node on the
  way): \<open>None\<close> says that the fuel did not suffice.
\<close>

fun convert_loop ::
  "nat \<Rightarrow> heap \<Rightarrow> addr \<Rightarrow> addr list \<Rightarrow> convert_state \<Rightarrow> (error + convert_state) option"
where
  "convert_loop 0 h node workStack st = None"
| "convert_loop (Suc fuel) h node workStack st =
     (if node \<noteq> nullptr
      then (case deref h node of
              Inl e \<Rightarrow> Some (Inl e)
            | Inr nd \<Rightarrow>
                (let children = getChildren nd;
                     workStack' = node # rev (drop 1 children) @ workStack
                 in if 0 < length children
                    then convert_loop fuel h (children ! 0) workStack' st
                    else if getKind nd = REFERENCE_NODE
                    then (case ReferenceNode_getAst nd of
                            Inl e \<Rightarrow> Some (Inl e)
                          | Inr ast \<Rightarrow> convert_loop fuel h ast workStack' st)
                    else convert_loop fuel h nullptr workStack' st))
      else (case workStack of
              [] \<Rightarrow> Some (Inl Undefined)
            | popped # rest \<Rightarrow>
                (case rest of
                   [] \<Rightarrow>
                     (case process switch_kind h popped st of
                        Inl e \<Rightarrow> Some (Inl e)
                      | Inr st' \<Rightarrow> Some (Inr st'))
                 | below # rest' \<Rightarrow>
                     (case NodeHasRightChild h popped below of
                        Inl e \<Rightarrow> Some (Inl e)
                      | Inr True \<Rightarrow> convert_loop fuel h below (popped # rest') st
                      | Inr False \<Rightarrow>
                          (case process switch_kind h popped st of
                             Inl e \<Rightarrow> Some (Inl e)
                           | Inr st' \<Rightarrow> convert_loop fuel h nullptr rest st')))))"

text \<open>
  \<^verbatim>\<open>TritonToZ3Ast::convert\<close> of tritonToZ3Ast.cpp. The result is the returned expression
  together with the state at the \<^verbatim>\<open>return\<close>, so that properties can speak of the map.
\<close>

definition convert ::
  "(unordered_map \<Rightarrow> unordered_map) \<Rightarrow> nat \<Rightarrow> TritonToZ3Ast \<Rightarrow> heap \<Rightarrow> addr \<Rightarrow>
     (error + Z3_ast \<times> convert_state) option"
where
  "convert iteration fuel this h node =
     (if node = nullptr then Some (Inl NodeCannotBeNull)
      else case convert_loop fuel h node [] (convert_start this) of
        None \<Rightarrow> None
      | Some (Inl e) \<Rightarrow> Some (Inl e)
      | Some (Inr st) \<Rightarrow>
          Some (bindE (um_begin_second iteration (z3expressions st)) (\<lambda>e. Inr (e, st))))"

subsection \<open>tritonToZ3Ast.New.cpp\<close>

text \<open>The table of binary functions has an entry for \<^verbatim>\<open>BVUGT_NODE\<close> here.\<close>

definition getBinaryZ3Function_New :: "kind_e \<Rightarrow> Z3_func option" where
  "getBinaryZ3Function_New kind =
     map_of [(BVADD_NODE, Z3_mk_bvadd), (BVAND_NODE, Z3_mk_bvand), (BVASHR_NODE, Z3_mk_bvashr),
             (BVLSHR_NODE, Z3_mk_bvlshr), (BVMUL_NODE, Z3_mk_bvmul), (BVNAND_NODE, Z3_mk_bvnand),
             (BVNOR_NODE, Z3_mk_bvnor), (BVOR_NODE, Z3_mk_bvor), (BVSDIV_NODE, Z3_mk_bvsdiv),
             (BVSGE_NODE, Z3_mk_bvsge), (BVSGT_NODE, Z3_mk_bvsgt), (BVSHL_NODE, Z3_mk_bvshl),
             (BVSLE_NODE, Z3_mk_bvsle), (BVSLT_NODE, Z3_mk_bvslt), (BVSMOD_NODE, Z3_mk_bvsmod),
             (BVSREM_NODE, Z3_mk_bvsrem), (BVSUB_NODE, Z3_mk_bvsub), (BVUDIV_NODE, Z3_mk_bvudiv),
             (BVUGE_NODE, Z3_mk_bvuge), (BVUGT_NODE, Z3_mk_bvugt), (BVULE_NODE, Z3_mk_bvule),
             (BVULT_NODE, Z3_mk_bvult), (BVUREM_NODE, Z3_mk_bvurem), (BVXNOR_NODE, Z3_mk_bvxnor),
             (BVXOR_NODE, Z3_mk_bvxor), (EQUAL_NODE, Z3_mk_eq)] kind"

text \<open>
  The \<^verbatim>\<open>switch\<close> of tritonToZ3Ast.New.cpp. The kinds of \<open>kind_e\<close> all have an arm, so its
  \<^verbatim>\<open>default\<close> arm has no kind left.
\<close>

definition switch_kind_New :: "convert_state \<Rightarrow> heap \<Rightarrow> AbstractNode \<Rightarrow> error + lowered" where
  "switch_kind_New st h nd =
     (let children = getChildren nd;
          z3FunctionBinary = getBinaryZ3Function_New (getKind nd);
          z3FunctionUnary = getUnaryZ3Function (getKind nd)
      in case getKind nd of
        BVADD_NODE \<Rightarrow> convert_binary z3FunctionBinary st children
      | BVAND_NODE \<Rightarrow> convert_binary z3FunctionBinary st children
      | BVASHR_NODE \<Rightarrow> convert_binary z3FunctionBinary st children
      | BVLSHR_NODE \<Rightarrow> convert_binary z3FunctionBinary st children
      | BVMUL_NODE \<Rightarrow> convert_binary z3FunctionBinary st children
      | BVNAND_NODE \<Rightarrow> convert_binary z3FunctionBinary st children
      | BVNOR_NODE \<Rightarrow> convert_binary z3FunctionBinary st children
      | BVOR_NODE \<Rightarrow> convert_binary z3FunctionBinary st children
      | BVSDIV_NODE \<Rightarrow> convert_binary z3FunctionBinary st children
      | BVSGE_NODE \<Rightarrow> convert_binary z3FunctionBinary st children
      | BVSGT_NODE \<Rightarrow> convert_binary z3FunctionBinary st children
      | BVSHL_NODE \<Rightarrow> convert_binary z3FunctionBinary st children
      | BVSLE_NODE \<Rightarrow> convert_binary z3FunctionBinary st children
      | BVSLT_NODE \<Rightarrow> convert_binary z3FunctionBinary st children
      | BVSMOD_NODE \<Rightarrow> convert_binary z3FunctionBinary st children
      | BVSREM_NODE \<Rightarrow> convert_binary z3FunctionBinary st children
      | BVSUB_NODE \<Rightarrow> convert_binary z3FunctionBinary st children
      | BVUDIV_NODE \<Rightarrow> convert_binary z3FunctionBinary st children
      | BVUGE_NODE \<Rightarrow> convert_binary z3FunctionBinary st children
      | BVUGT_NODE \<Rightarrow> convert_binary z3FunctionBinary st children
      | BVULE_NODE \<Rightarrow> convert_binary z3FunctionBinary st children
      | BVULT_NODE \<Rightarrow> convert_binary z3FunctionBinary st children
      | BVUREM_NODE \<Rightarrow> convert_binary z3FunctionBinary st children
      | BVXNOR_NODE \<Rightarrow> convert_binary z3FunctionBinary st children
      | BVXOR_NODE \<Rightarrow> convert_binary z3FunctionBinary st children
      | EQUAL_NODE \<Rightarrow> convert_binary z3FunctionBinary st children
      | BVNEG_NODE \<Rightarrow> convert_unary z3FunctionUnary st children
      | BVNOT_NODE \<Rightarrow> convert_unary z3FunctionUnary st children
      | BVROL_NODE \<Rightarrow> convert_rotate Z3_mk_rotate_left st h children
      | BVROR_NODE \<Rightarrow> convert_rotate Z3_mk_rotate_right st h children
      | BV_NODE \<Rightarrow> convert_BV_NODE getUintValue_Z3_ast st children
      | CONCAT_NODE \<Rightarrow> convert_CONCAT_NODE st children
      | DECIMAL_NODE \<Rightarrow> convert_DECIMAL_NODE st nd
      | DISTINCT_NODE \<Rightarrow> convert_DISTINCT_NODE st children
      | EXTRACT_NODE \<Rightarrow> convert_EXTRACT_NODE getUintValue_Z3_ast st children
      | ITE_NODE \<Rightarrow> convert_ITE_NODE st children
      | LAND_NODE \<Rightarrow> convert_logical Z3_mk_and st children
      | LET_NODE \<Rightarrow> convert_LET_NODE st h children
      | LNOT_NODE \<Rightarrow> convert_LNOT_NODE st children
      | LOR_NODE \<Rightarrow> convert_logical Z3_mk_or st children
      | REFERENCE_NODE \<Rightarrow> convert_REFERENCE_NODE st nd
      | STRING_NODE \<Rightarrow> convert_STRING_NODE st nd
      | SX_NODE \<Rightarrow> convert_extend Z3_mk_sign_ext getUintValue_Z3_ast st children
      | VARIABLE_NODE \<Rightarrow> convert_VARIABLE_NODE st nd
      | ZX_NODE \<Rightarrow> convert_extend Z3_mk_zero_ext getUintValue_Z3_ast st children)"

text \<open>
  \<^verbatim>\<open>fillWorkStack\<close>: the work stack holds pairs of a node and the index of its next
  child, the top first. The loop need not end (a reference may lead back to a node that
  is on the stack), so it runs on fuel: \<open>None\<close> says that the fuel did not suffice.
\<close>

fun fillWorkStack_loop ::
  "nat \<Rightarrow> heap \<Rightarrow> (addr \<times> nat) list \<Rightarrow> addr list \<Rightarrow> (error + addr list) option"
where
  "fillWorkStack_loop fuel h [] result = Some (Inr result)"
| "fillWorkStack_loop 0 h (current_item # workstack) result = None"
| "fillWorkStack_loop (Suc fuel) h ((current_node, child_index) # workstack) result =
     (case deref h current_node of
        Inl e \<Rightarrow> Some (Inl e)
      | Inr nd \<Rightarrow>
          (let children = getChildren nd
           in if child_index < length children
              then fillWorkStack_loop fuel h
                     ((children ! child_index, 0) # (current_node, child_index + 1) # workstack)
                     result
              else if getKind nd = REFERENCE_NODE \<and> child_index = 0
              then (case ReferenceNode_getAst nd of
                      Inl e \<Rightarrow> Some (Inl e)
                    | Inr ast \<Rightarrow>
                        fillWorkStack_loop fuel h
                          ((ast, 0) # (current_node, child_index + 1) # workstack) result)
              else fillWorkStack_loop fuel h workstack (result @ [current_node])))"

definition fillWorkStack :: "nat \<Rightarrow> heap \<Rightarrow> addr \<Rightarrow> addr list \<Rightarrow> (error + addr list) option"
where
  "fillWorkStack fuel h node result = fillWorkStack_loop fuel h [(node, 0)] result"

text \<open>\<^verbatim>\<open>TritonToZ3Ast::convert\<close> of tritonToZ3Ast.New.cpp.\<close>

definition convert_New ::
  "(unordered_map \<Rightarrow> unordered_map) \<Rightarrow> nat \<Rightarrow> TritonToZ3Ast \<Rightarrow> heap \<Rightarrow> addr \<Rightarrow>
     (error + Z3_ast \<times> convert_state) option"
where
  "convert_New iteration fuel this h node =
     (if node = nullptr then Some (Inl NodeCannotBeNull)
      else case fillWorkStack fuel h node [] of
        None \<Rightarrow> None
      | Some (Inl e) \<Rightarrow> Some (Inl e)
      | Some (Inr visitVector) \<Rightarrow>
          Some (bindE (foreach (process switch_kind_New h) visitVector (convert_start this))
                  (\<lambda>st.
                bindE (um_begin_second iteration (z3expressions st)) (\<lambda>e. Inr (e, st)))))"

section \<open>Vocabulary of the properties\<close>

text \<open>The nodes \<^verbatim>\<open>getChildren\<close> leads to from \<open>root\<close>, null children left out.\<close>

inductive_set reachable :: "heap \<Rightarrow> addr \<Rightarrow> addr set" for h :: heap and root :: addr where
  reachable_root: "root \<noteq> nullptr \<Longrightarrow> root \<in> reachable h root"
| reachable_child:
    "p \<in> reachable h root \<Longrightarrow> h p = Some nd \<Longrightarrow> c \<in> set (getChildren nd) \<Longrightarrow> c \<noteq> nullptr
     \<Longrightarrow> c \<in> reachable h root"

text \<open>
  A heap whose children are live objects and whose child relation has no cycle: \<open>rk\<close>
  ranks every node above its children.
\<close>

definition closed_heap :: "(addr \<Rightarrow> nat) \<Rightarrow> heap \<Rightarrow> bool" where
  "closed_heap rk h =
     (\<forall>p nd c. h p = Some nd \<longrightarrow> c \<in> set (getChildren nd) \<longrightarrow> c \<noteq> nullptr \<longrightarrow>
        c \<in> dom h \<and> rk c < rk p)"

text \<open>
  What \<^verbatim>\<open>freeAstNodes\<close> reads of a node before deleting it: the object, and its name when
  its kind is \<^verbatim>\<open>VARIABLE_NODE\<close>.
\<close>

definition freeable :: "heap \<Rightarrow> addr \<Rightarrow> bool" where
  "freeable h n = (n \<noteq> nullptr \<and>
     (case h n of None \<Rightarrow> False
      | Some nd \<Rightarrow> getKind nd = VARIABLE_NODE \<longrightarrow> getVarName nd \<noteq> None))"

text \<open>
  What a run of \<^verbatim>\<open>convert\<close> gave: the expression it returned, the entry of a node
  in \<^verbatim>\<open>z3expressions\<close> at the \<^verbatim>\<open>return\<close>, how often the loop ran its \<^verbatim>\<open>switch\<close> for a
  node, and the solver calls it made.
\<close>

definition returned :: "(error + Z3_ast \<times> convert_state) option \<Rightarrow> Z3_ast option" where
  "returned r = (case r of Some (Inr (e, st)) \<Rightarrow> Some e | _ \<Rightarrow> None)"

definition memoized :: "(error + Z3_ast \<times> convert_state) option \<Rightarrow> addr \<Rightarrow> Z3_ast option" where
  "memoized r node =
     (case r of Some (Inr (e, st)) \<Rightarrow> map_of (z3expressions st) node | _ \<Rightarrow> None)"



text \<open>What a run of processing steps does to the log and to the keys of the map.\<close>

definition extends_by :: "convert_state \<Rightarrow> convert_state \<Rightarrow> addr list \<Rightarrow> bool" where
  "extends_by st st' nodes =
     (processed st' = processed st @ nodes \<and>
      set (map fst (z3expressions st')) = set (map fst (z3expressions st)) \<union> set nodes \<and>
      (distinct (map fst (z3expressions st)) \<longrightarrow> distinct (map fst (z3expressions st'))))"




section \<open>Examples\<close>

definition heap_C6 :: heap where
  "heap_C6 = [1 \<mapsto> DecimalNode 7, 2 \<mapsto> ReferenceNode 1,
              3 \<mapsto> VariableNode \<lparr>getId = 0, getName = ''x'', getSize = 8\<rparr> 0,
              4 \<mapsto> AstNode BVADD_NODE [2, 3]]"

definition heap_C7 :: heap where
  "heap_C7 = [1 \<mapsto> DecimalNode 7, 2 \<mapsto> DecimalNode 8, 3 \<mapsto> AstNode BV_NODE [1, 2]]"

definition heap_C10 :: heap where
  "heap_C10 = [1 \<mapsto> VariableNode \<lparr>getId = 0, getName = ''x'', getSize = 8\<rparr> 0,
               2 \<mapsto> DecimalNode 8, 3 \<mapsto> DecimalNode 9]"

text \<open>
  A translator with two symbolic variables of 8 bits, and a heap with the two variable
  nodes (1, 2), their sum (3), the sum of the first with itself (4), the node
  \<^verbatim>\<open>LET("x", v, STRING("x"))\<close> over the first variable (7, with its two string nodes 5
  and 6), and the sum (9) of two references (8, 10) to the sum at 3.
\<close>

definition translator_example :: TritonToZ3Ast where
  "translator_example =
     \<lparr>symbolicEngine = [0 \<mapsto> \<lparr>getId = 0, getName = ''SymVar_0'', getSize = 8\<rparr>,
                        1 \<mapsto> \<lparr>getId = 1, getName = ''SymVar_1'', getSize = 8\<rparr>],
      isEval = False, symbols = Map.empty, z3context = []\<rparr>"

definition heap_example :: heap where
  "heap_example =
     [1 \<mapsto> VariableNode \<lparr>getId = 0, getName = ''SymVar_0'', getSize = 8\<rparr> 0,
      2 \<mapsto> VariableNode \<lparr>getId = 1, getName = ''SymVar_1'', getSize = 8\<rparr> 0,
      3 \<mapsto> AstNode BVADD_NODE [1, 2],
      4 \<mapsto> AstNode BVADD_NODE [1, 1],
      5 \<mapsto> StringNode ''x'',
      6 \<mapsto> StringNode ''x'',
      7 \<mapsto> AstNode LET_NODE [5, 1, 6],
      8 \<mapsto> ReferenceNode 3,
      9 \<mapsto> AstNode BVADD_NODE [8, 10],
      10 \<mapsto> ReferenceNode 3]"

section \<open>Properties of the collector\<close>

subsection \<open>Loops over sets of nodes\<close>

lemma foreach_delete_if:
  assumes "distinct xs" and "h nullptr = None"
      and "\<forall>n\<in>set xs. P n \<longrightarrow> n \<noteq> nullptr \<longrightarrow> n \<in> dom h"
  shows "foreach (\<lambda>it h1. if P it then delete_node it h1 else Inr h1) xs h =
           Inr (\<lambda>a. if a \<in> set xs \<and> P a then None else h a)"
  using assms
proof (induction xs arbitrary: h)
  case Nil
  then show ?case by simp
next
  case (Cons x xs)
  let ?h1 = "if P x then h(x := None) else h"
  have step: "(if P x then delete_node x h else Inr h) = Inr ?h1"
    using Cons.prems by (auto simp add: delete_node_def)
  have "distinct xs" and "x \<notin> set xs" using Cons.prems by simp_all
  moreover have "?h1 nullptr = None" using Cons.prems by simp
  moreover have "\<forall>n\<in>set xs. P n \<longrightarrow> n \<noteq> nullptr \<longrightarrow> n \<in> dom ?h1"
    using Cons.prems by auto
  ultimately have "foreach (\<lambda>it h1. if P it then delete_node it h1 else Inr h1) xs ?h1 =
           Inr (\<lambda>a. if a \<in> set xs \<and> P a then None else ?h1 a)"
    using Cons.IH [of ?h1] by blast
  then show ?case using step by (auto simp add: fun_eq_iff)
qed

lemma copy_result:
  assumes "finite (allocatedNodes this)" and "h nullptr = None"
      and "allocatedNodes this - allocatedNodes other \<subseteq> insert nullptr (dom h)"
  shows "copy this other h =
           Inr (this\<lparr>allocatedNodes := allocatedNodes other, backupFlag := True,
                      variableNodes := variableNodes other\<rparr>,
                \<lambda>a. if a \<in> allocatedNodes this - allocatedNodes other then None else h a)"
proof -
  have "foreach (\<lambda>it h1. if it \<notin> allocatedNodes other then delete_node it h1 else Inr h1)
          (sorted_list_of_set (allocatedNodes this)) h =
        Inr (\<lambda>a. if a \<in> set (sorted_list_of_set (allocatedNodes this)) \<and> a \<notin> allocatedNodes other
                  then None else h a)"
    using assms by (intro foreach_delete_if) auto
  then show ?thesis using assms(1) by (simp add: copy_def)
qed

lemma freeAllAstNodes_result:
  assumes "finite (allocatedNodes this)" and "h nullptr = None"
      and "allocatedNodes this \<subseteq> insert nullptr (dom h)"
  shows "freeAllAstNodes this h =
           Inr (this\<lparr>variableNodes := Map.empty, allocatedNodes := {}\<rparr>,
                \<lambda>a. if a \<in> allocatedNodes this then None else h a)"
proof -
  have "foreach (\<lambda>it h1. if True then delete_node it h1 else Inr h1)
          (sorted_list_of_set (allocatedNodes this)) h =
        Inr (\<lambda>a. if a \<in> set (sorted_list_of_set (allocatedNodes this)) \<and> True
                  then None else h a)"
    using assms by (intro foreach_delete_if) auto
  then show ?thesis using assms(1) by (simp add: freeAllAstNodes_def)
qed



lemma foreach_freeAstNodes_body:
  assumes "distinct xs" and "\<forall>n\<in>set xs. freeable h n"
  shows "\<exists>this' h'. foreach freeAstNodes_body xs (this, h) = Inr (this', h') \<and>
           allocatedNodes this' = allocatedNodes this - set xs \<and>
           backupFlag this' = backupFlag this \<and>
           h' = (\<lambda>a. if a \<in> set xs then None else h a) \<and>
           variableNodes this' =
             (\<lambda>name. if \<exists>n\<in>set xs. \<exists>nd. h n = Some nd \<and> getVarName nd = Some name
                      then None else variableNodes this name)"
  using assms
proof (induction xs arbitrary: this h)
  case Nil
  then show ?case by simp
next
  case (Cons x xs)
  from Cons.prems obtain nd where nd: "x \<noteq> nullptr" "h x = Some nd"
      "getKind nd = VARIABLE_NODE \<longrightarrow> getVarName nd \<noteq> None"
    by (auto simp add: freeable_def split: option.splits)
  let ?h1 = "h(x := None)"
  let ?this1 = "this\<lparr>allocatedNodes := allocatedNodes this - {x},
                     variableNodes := (\<lambda>name. if getVarName nd = Some name then None
                                               else variableNodes this name)\<rparr>"
  have kind: "getVarName nd \<noteq> None \<Longrightarrow> getKind nd = VARIABLE_NODE"
    by (cases nd) simp_all
  have step: "freeAstNodes_body x (this, h) = Inr (?this1, ?h1)"
    using nd kind
    by (cases "getVarName nd")
       (auto simp add: freeAstNodes_body_def delete_node_def fun_eq_iff)
  have xs: "distinct xs" "x \<notin> set xs" using Cons.prems by simp_all
  have "\<forall>n\<in>set xs. freeable ?h1 n"
    using Cons.prems xs by (auto simp add: freeable_def)
  from Cons.IH [OF xs(1) this, of ?this1] obtain this' h' where
      r: "foreach freeAstNodes_body xs (?this1, ?h1) = Inr (this', h')"
         "allocatedNodes this' = allocatedNodes ?this1 - set xs"
         "backupFlag this' = backupFlag ?this1"
         "h' = (\<lambda>a. if a \<in> set xs then None else ?h1 a)"
         "variableNodes this' =
             (\<lambda>name. if \<exists>n\<in>set xs. \<exists>nd. ?h1 n = Some nd \<and> getVarName nd = Some name
                      then None else variableNodes ?this1 name)"
    by blast
  have "foreach freeAstNodes_body (x # xs) (this, h) = Inr (this', h')"
    using step r(1) by simp
  moreover have "allocatedNodes this' = allocatedNodes this - set (x # xs)"
    using r(2) by auto
  moreover have "backupFlag this' = backupFlag this" using r(3) by simp
  moreover have "h' = (\<lambda>a. if a \<in> set (x # xs) then None else h a)"
    using r(4) by (auto simp add: fun_eq_iff)
  moreover have "variableNodes this' =
             (\<lambda>name. if \<exists>n\<in>set (x # xs). \<exists>nd. h n = Some nd \<and> getVarName nd = Some name
                      then None else variableNodes this name)"
    using r(5) xs(2) nd(2) by (auto simp add: fun_eq_iff)
  ultimately show ?case by blast
qed

subsection \<open>Reachability through the children\<close>

lemma reachable_nullptr: "reachable h nullptr = {}"
proof -
  have "x \<in> reachable h nullptr \<Longrightarrow> False" for x
    by (induction rule: reachable.induct) simp_all
  then show ?thesis by blast
qed

lemma reachable_trans:
  assumes "x \<in> reachable h c" and "c \<in> reachable h root"
  shows "x \<in> reachable h root"
  using assms by (induction rule: reachable.induct) (auto intro: reachable.intros)

lemma reachable_step:
  assumes "root \<noteq> nullptr" and "h root = Some nd"
  shows "reachable h root = insert root (\<Union>c\<in>set (getChildren nd). reachable h c)"
proof (intro set_eqI iffI)
  fix x assume "x \<in> reachable h root"
  then show "x \<in> insert root (\<Union>c\<in>set (getChildren nd). reachable h c)"
  proof (induction rule: reachable.induct)
    case reachable_root
    then show ?case by simp
  next
    case (reachable_child p nd' c)
    show ?case
    proof (cases "p = root")
      case True
      then have "c \<in> set (getChildren nd)" using reachable_child assms by simp
      moreover have "c \<in> reachable h c" using reachable_child by (simp add: reachable.reachable_root)
      ultimately show ?thesis by blast
    next
      case False
      then obtain c' where "c' \<in> set (getChildren nd)" "p \<in> reachable h c'"
        using reachable_child.IH by blast
      note this(2)
      then have "c \<in> reachable h c'"
        using \<open>h p = Some nd'\<close> \<open>c \<in> set (getChildren nd')\<close> \<open>c \<noteq> nullptr\<close>
        by (rule reachable.reachable_child)
      then show ?thesis using \<open>c' \<in> set (getChildren nd)\<close> by blast
    qed
  qed
next
  fix x assume "x \<in> insert root (\<Union>c\<in>set (getChildren nd). reachable h c)"
  then consider "x = root" | c where "c \<in> set (getChildren nd)" "x \<in> reachable h c" by blast
  then show "x \<in> reachable h root"
  proof cases
    case 1
    then show ?thesis using assms by (simp add: reachable.reachable_root)
  next
    case 2
    have "c \<noteq> nullptr"
    proof
      assume "c = nullptr"
      with 2(2) show False by (simp add: reachable_nullptr)
    qed
    have "root \<in> reachable h root" using assms(1) by (rule reachable.reachable_root)
    then have "c \<in> reachable h root"
      using assms(2) 2(1) \<open>c \<noteq> nullptr\<close> by (rule reachable.reachable_child)
    with 2(2) show ?thesis by (rule reachable_trans)
  qed
qed



lemma extract_reachable_aux:
  shows "closed_heap rk h \<Longrightarrow> (root = nullptr \<or> (root \<in> dom h \<and> rk root < fuel)) \<Longrightarrow>
           extractUniqueAstNodes fuel h u root = Some (Inr (u \<union> reachable h root))"
    and "closed_heap rk h2 \<Longrightarrow> (\<forall>c\<in>set cs. c = nullptr \<or> (c \<in> dom h2 \<and> rk c < fuel2)) \<Longrightarrow>
           extractUniqueAstNodes_loop fuel2 h2 u2 cs =
             Some (Inr (u2 \<union> (\<Union>c\<in>set cs. reachable h2 c)))"
proof (induction fuel h u root and fuel2 h2 u2 cs
       rule: extractUniqueAstNodes_extractUniqueAstNodes_loop.induct)
  case (1 fuel h uniqueNodes root)
  show ?case
  proof (cases "root = nullptr")
    case True
    then show ?thesis by (simp add: reachable_nullptr)
  next
    case False
    with "1.prems" obtain nd fuel' where nd: "h root = Some nd" and f: "fuel = Suc fuel'"
      and rk: "rk root < fuel"
      by (cases fuel) auto
    have "\<forall>c\<in>set (getChildren nd). c = nullptr \<or> (c \<in> dom h \<and> rk c < fuel')"
    proof
      fix c assume c: "c \<in> set (getChildren nd)"
      show "c = nullptr \<or> (c \<in> dom h \<and> rk c < fuel')"
      proof (cases "c = nullptr")
        case True then show ?thesis by simp
      next
        case False
        then have "c \<in> dom h \<and> rk c < rk root"
          using "1.prems"(1) nd c unfolding closed_heap_def by blast
        then show ?thesis using rk f by simp
      qed
    qed
    then have "extractUniqueAstNodes_loop fuel' h (insert root uniqueNodes) (getChildren nd) =
        Some (Inr (insert root uniqueNodes \<union> (\<Union>c\<in>set (getChildren nd). reachable h c)))"
      using "1.IH" [OF False f nd "1.prems"(1)] by blast
    then show ?thesis
      using False f nd reachable_step [of root h nd] by simp
  qed
next
  case (2 fuel h uniqueNodes)
  then show ?case by simp
next
  case (3 fuel h uniqueNodes it its)
  have a: "extractUniqueAstNodes fuel h uniqueNodes it = Some (Inr (uniqueNodes \<union> reachable h it))"
    using "3.IH"(1) "3.prems" by simp
  have "extractUniqueAstNodes_loop fuel h (uniqueNodes \<union> reachable h it) its =
      Some (Inr ((uniqueNodes \<union> reachable h it) \<union> (\<Union>c\<in>set its. reachable h c)))"
    using "3.IH"(2) [OF a _ "3.prems"(1)] "3.prems"(2) by simp
  then show ?case using a by (simp add: Un_assoc)
qed

subsection \<open>Registering a variable twice\<close>

text \<open>
  C5. Two calls \<^verbatim>\<open>recordVariableAstNode(name, n1)\<close>, \<^verbatim>\<open>recordVariableAstNode(name, n2)\<close> on
  the same collector: the second throws, and the collector after it is the collector
  before it (its set of nodes, its variable map, its flag). Where the first call
  registered the name, the name still maps to \<open>n1\<close>.
\<close>

theorem recordVariableAstNode_duplicate:
  assumes "recordVariableAstNode g name n1 = (r1, g1)"
      and "recordVariableAstNode g1 name n2 = (r2, g2)"
  shows "r2 = Inl AlreadyExists \<and> g2 = g1 \<and>
         allocatedNodes g2 = allocatedNodes g \<and>
         (r1 = Inr () \<longrightarrow> variableNodes g2 name = Some n1)"
  using assms
  by (cases "variableNodes g name")
     (auto simp add: recordVariableAstNode_def map_emplace_def)

theorem recordVariableAstNode_duplicate_witness:
  "recordVariableAstNode (AstGarbageCollector_new False) ''x'' 1 =
     (Inr (), \<lparr>allocatedNodes = {}, variableNodes = [''x'' \<mapsto> 1], backupFlag = False\<rparr>) \<and>
   recordVariableAstNode
     \<lparr>allocatedNodes = {}, variableNodes = [''x'' \<mapsto> 1], backupFlag = False\<rparr> ''x'' 2 =
     (Inl AlreadyExists,
      \<lparr>allocatedNodes = {}, variableNodes = [''x'' \<mapsto> 1], backupFlag = False\<rparr>) \<and>
   variableNodes
     (snd (recordVariableAstNode
        \<lparr>allocatedNodes = {}, variableNodes = [''x'' \<mapsto> 1], backupFlag = False\<rparr> ''x'' 2))
     ''x'' = Some 1"
proof -
  let ?g1 = "\<lparr>allocatedNodes = {}, variableNodes = [''x'' \<mapsto> 1::addr], backupFlag = False\<rparr>"
  have first: "recordVariableAstNode (AstGarbageCollector_new False) ''x'' 1 = (Inr (), ?g1)"
    by (simp add: recordVariableAstNode_def map_emplace_def AstGarbageCollector_new_def)
  have second: "recordVariableAstNode ?g1 ''x'' 2 =
      (fst (recordVariableAstNode ?g1 ''x'' 2), snd (recordVariableAstNode ?g1 ''x'' 2))"
    by simp
  from recordVariableAstNode_duplicate [OF first second] first show ?thesis
    by (simp add: prod_eq_iff)
qed

subsection \<open>Reachability\<close>

text \<open>
  C6. On a heap whose children are live and acyclic, \<^verbatim>\<open>extractUniqueAstNodes\<close> returns
  and adds to the output set exactly the nodes reachable from \<open>root\<close> through
  \<^verbatim>\<open>getChildren\<close>: called on an empty set, the set afterwards is that set of nodes. A
  \<^verbatim>\<open>ReferenceNode\<close> has no children, so the walk stops at it: the node it refers to is
  not added.
\<close>

theorem extractUniqueAstNodes_reachable:
  assumes "closed_heap rk h" and "root = nullptr \<or> root \<in> dom h" and "rk root < fuel"
      and "h nullptr = None"
  shows "extractUniqueAstNodes fuel h uniqueNodes root =
           Some (Inr (uniqueNodes \<union> reachable h root)) \<and>
         extractUniqueAstNodes fuel h {} root = Some (Inr (reachable h root)) \<and>
         (\<forall>target. h root = Some (ReferenceNode target) \<longrightarrow>
            extractUniqueAstNodes fuel h uniqueNodes root = Some (Inr (insert root uniqueNodes)))"
proof -
  have a: "extractUniqueAstNodes fuel h u root = Some (Inr (u \<union> reachable h root))" for u
    using assms(1,2,3) extract_reachable_aux(1) [of rk h root fuel u] by blast
  have "extractUniqueAstNodes fuel h uniqueNodes root = Some (Inr (insert root uniqueNodes))"
    if "h root = Some (ReferenceNode target)" for target
  proof -
    have "root \<noteq> nullptr"
    proof
      assume "root = nullptr"
      with that assms(4) show False by simp
    qed
    moreover have "fuel \<noteq> 0" using assms(3) by auto
    ultimately show ?thesis using that by (cases fuel) simp_all
  qed
  then show ?thesis using a [of uniqueNodes] a [of "{}"] by simp
qed

theorem extractUniqueAstNodes_reachable_witness:
  "extractUniqueAstNodes 5 heap_C6 {} 4 = Some (Inr {2, 3, 4}) \<and>
   reachable heap_C6 4 = {2, 3, 4} \<and>
   extractUniqueAstNodes 5 heap_C6 {} 2 = Some (Inr {2})"
proof -
  have c: "closed_heap (\<lambda>a. a) heap_C6"
    by (auto simp add: closed_heap_def heap_C6_def split: if_splits)
  have d: "4 = nullptr \<or> 4 \<in> dom heap_C6" "2 = nullptr \<or> 2 \<in> dom heap_C6"
    by (simp_all add: heap_C6_def)
  have lt: "(\<lambda>a. a) 4 < (5::nat)" "(\<lambda>a. a) 2 < (5::nat)" by simp_all
  have n: "heap_C6 nullptr = None" by (simp add: heap_C6_def nullptr_def)
  have e: "extractUniqueAstNodes 5 heap_C6 {} 4 = Some (Inr {2, 3, 4})"
    by (simp add: heap_C6_def nullptr_def eval_nat_numeral insert_commute)
  have f: "heap_C6 2 = Some (ReferenceNode 1)" by (simp add: heap_C6_def)
  note t4 = extractUniqueAstNodes_reachable [OF c d(1) lt(1) n, of "{}"]
  note t2 = extractUniqueAstNodes_reachable [OF c d(2) lt(2) n, of "{}"]
  from t4 have "extractUniqueAstNodes 5 heap_C6 {} 4 = Some (Inr (reachable heap_C6 4))"
    by blast
  from this [unfolded e] have "reachable heap_C6 4 = {2, 3, 4}" by simp
  moreover from t2 f have "extractUniqueAstNodes 5 heap_C6 {} 2 = Some (Inr {2})"
    by blast
  ultimately show ?thesis using e by blast
qed

subsection \<open>Copy and assignment\<close>

text \<open>
  C7. \<^verbatim>\<open>copy\<close> (the body of \<^verbatim>\<open>operator=\<close> and of the copy constructor), where the nodes
  this collector tracks and \<open>other\<close> does not are live objects: the call returns; each
  of those nodes is deleted and no other address of the heap changes; the collector's
  set of nodes and variable map are \<open>other\<close>'s; its backup flag is true, whatever it was.
\<close>

theorem copy_restores_other:
  assumes "finite (allocatedNodes this)" and "h nullptr = None"
      and "allocatedNodes this - allocatedNodes other \<subseteq> insert nullptr (dom h)"
  shows "\<exists>this' h'. copy this other h = Inr (this', h') \<and>
           assign this other h = Inr (this', h') \<and>
           (\<forall>n\<in>allocatedNodes this - allocatedNodes other. h' n = None) \<and>
           (\<forall>n. n \<notin> allocatedNodes this - allocatedNodes other \<longrightarrow> h' n = h n) \<and>
           allocatedNodes this' = allocatedNodes other \<and>
           variableNodes this' = variableNodes other \<and>
           backupFlag this' = True"
  using copy_result [OF assms] by (simp add: assign_def)

theorem copy_restores_other_witness:
  "\<exists>this' h'.
     copy \<lparr>allocatedNodes = {1, 2, 3}, variableNodes = Map.empty, backupFlag = False\<rparr>
          \<lparr>allocatedNodes = {1}, variableNodes = [''x'' \<mapsto> 1], backupFlag = False\<rparr>
          heap_C7 = Inr (this', h') \<and>
     h' 2 = None \<and> h' 3 = None \<and> h' 1 = Some (DecimalNode 7) \<and>
     allocatedNodes this' = {1} \<and> variableNodes this' = [''x'' \<mapsto> 1] \<and> backupFlag this' = True"
proof -
  let ?g = "\<lparr>allocatedNodes = {1, 2, 3}, variableNodes = Map.empty, backupFlag = False\<rparr>"
  let ?o = "\<lparr>allocatedNodes = {1}, variableNodes = [''x'' \<mapsto> 1::addr], backupFlag = False\<rparr>"
  have a: "finite (allocatedNodes ?g)" by simp
  have b: "heap_C7 nullptr = None" by (simp add: heap_C7_def nullptr_def)
  have c: "allocatedNodes ?g - allocatedNodes ?o \<subseteq> insert nullptr (dom heap_C7)"
    by (auto simp add: heap_C7_def)
  from copy_restores_other [OF a b c] obtain this' h' where
    r: "copy ?g ?o heap_C7 = Inr (this', h')"
       "\<forall>n\<in>allocatedNodes ?g - allocatedNodes ?o. h' n = None"
       "\<forall>n. n \<notin> allocatedNodes ?g - allocatedNodes ?o \<longrightarrow> h' n = heap_C7 n"
       "allocatedNodes this' = allocatedNodes ?o"
       "variableNodes this' = variableNodes ?o"
       "backupFlag this' = True"
    by blast
  have "h' 2 = None" "h' 3 = None" using r(2) by simp_all
  moreover have "h' 1 = Some (DecimalNode 7)" using r(3) by (simp add: heap_C7_def)
  ultimately show ?thesis using r(1,4,5,6) by simp
qed

subsection \<open>Destruction\<close>

text \<open>
  C8. The destructor calls \<^verbatim>\<open>freeAllAstNodes\<close> only when the backup flag is false. With
  the flag true it leaves the heap as it is: every node stays alive. A collector built
  with \<^verbatim>\<open>isBackup = true\<close> and a collector that \<^verbatim>\<open>copy\<close> has assigned have the flag true.
\<close>

theorem destructor_backup_keeps_nodes:
  "(backupFlag this \<longrightarrow> destructor this h = Inr h) \<and>
   (\<not> backupFlag this \<longrightarrow>
      destructor this h =
        (case freeAllAstNodes this h of Inl e \<Rightarrow> Inl e | Inr (g, h') \<Rightarrow> Inr h')) \<and>
   destructor (AstGarbageCollector_new True) h = Inr h \<and>
   (\<forall>g h1. copy this0 other h0 = Inr (g, h1) \<longrightarrow> backupFlag g \<and> destructor g h = Inr h) \<and>
   (\<forall>g h1. AstGarbageCollector_copy other h0 = Inr (g, h1) \<longrightarrow>
      backupFlag g \<and> destructor g h = Inr h)"
  by (auto simp add: destructor_def AstGarbageCollector_new_def copy_def
        AstGarbageCollector_copy_def split: sum.splits)

theorem destructor_backup_keeps_nodes_witness:
  "destructor \<lparr>allocatedNodes = {1, 2, 3}, variableNodes = Map.empty, backupFlag = True\<rparr> heap_C7
     = Inr heap_C7 \<and>
   (\<exists>h'. destructor \<lparr>allocatedNodes = {1, 2, 3}, variableNodes = Map.empty, backupFlag = False\<rparr>
           heap_C7 = Inr h' \<and> h' 1 = None \<and> h' 2 = None \<and> h' 3 = None)"
proof -
  let ?b = "\<lparr>allocatedNodes = {1, 2, 3}, variableNodes = Map.empty, backupFlag = True\<rparr>"
  let ?o = "\<lparr>allocatedNodes = {1, 2, 3}, variableNodes = Map.empty, backupFlag = False\<rparr>"
  have "freeAllAstNodes ?o heap_C7 =
      Inr (?o\<lparr>variableNodes := Map.empty, allocatedNodes := {}\<rparr>,
           \<lambda>a. if a \<in> allocatedNodes ?o then None else heap_C7 a)"
    by (rule freeAllAstNodes_result) (auto simp add: heap_C7_def nullptr_def)
  then show ?thesis
    using destructor_backup_keeps_nodes [of ?b heap_C7]
          destructor_backup_keeps_nodes [of ?o heap_C7]
    by simp
qed

subsection \<open>A null root\<close>

text \<open>
  C9. \<^verbatim>\<open>extractUniqueAstNodes\<close> with a null root returns at once, without an error, and
  the output set is the set it was given.
\<close>

theorem extractUniqueAstNodes_nullptr:
  "extractUniqueAstNodes fuel h uniqueNodes nullptr = Some (Inr uniqueNodes)"
  by simp

theorem extractUniqueAstNodes_nullptr_witness:
  "extractUniqueAstNodes 0 heap_C7 {1, 2} nullptr = Some (Inr {1, 2})"
  using extractUniqueAstNodes_nullptr [of 0 heap_C7 "{1, 2}"] by simp

subsection \<open>Freeing a set of nodes\<close>

text \<open>
  C10. \<^verbatim>\<open>freeAstNodes\<close>, on a set of live nodes: the call returns; the caller's set is
  empty afterwards; each node of the set is removed from the collector's set of nodes
  and deleted; no other address of the heap changes.
\<close>

theorem freeAstNodes_empties_argument:
  assumes "finite nodes" and "\<forall>n\<in>nodes. freeable h n"
  shows "\<exists>this' h'. freeAstNodes this h nodes = Inr (this', h', {}) \<and>
           allocatedNodes this' = allocatedNodes this - nodes \<and>
           (\<forall>n\<in>nodes. h' n = None) \<and>
           (\<forall>n. n \<notin> nodes \<longrightarrow> h' n = h n)"
proof -
  have "distinct (sorted_list_of_set nodes)" and "set (sorted_list_of_set nodes) = nodes"
    using assms(1) by simp_all
  with foreach_freeAstNodes_body [of "sorted_list_of_set nodes" h this] assms(2)
  obtain this' h' where
    "foreach freeAstNodes_body (sorted_list_of_set nodes) (this, h) = Inr (this', h')"
    "allocatedNodes this' = allocatedNodes this - nodes"
    "h' = (\<lambda>a. if a \<in> nodes then None else h a)"
    by auto
  then show ?thesis by (simp add: freeAstNodes_def)
qed

theorem freeAstNodes_empties_argument_witness:
  "\<exists>this' h'.
     freeAstNodes \<lparr>allocatedNodes = {1, 2, 3}, variableNodes = [''x'' \<mapsto> 1], backupFlag = False\<rparr>
       heap_C10 {1, 2} = Inr (this', h', {}) \<and>
     allocatedNodes this' = {3} \<and> h' 1 = None \<and> h' 2 = None \<and> h' 3 = Some (DecimalNode 9)"
proof -
  let ?g = "\<lparr>allocatedNodes = {1, 2, 3}, variableNodes = [''x'' \<mapsto> 1::addr], backupFlag = False\<rparr>"
  have a: "finite {1, 2 :: addr}" by simp
  have b: "\<forall>n\<in>{1, 2}. freeable heap_C10 n"
    by (simp add: freeable_def heap_C10_def nullptr_def)
  from freeAstNodes_empties_argument [OF a b, of ?g] obtain this' h' where
    r: "freeAstNodes ?g heap_C10 {1, 2} = Inr (this', h', {})"
       "allocatedNodes this' = allocatedNodes ?g - {1, 2}"
       "\<forall>n\<in>{1, 2}. h' n = None"
       "\<forall>n. n \<notin> {1, 2} \<longrightarrow> h' n = heap_C10 n"
    by blast
  have "allocatedNodes this' = {3}" using r(2) by auto
  moreover have "h' 1 = None" "h' 2 = None" using r(3) by simp_all
  moreover have "h' 3 = Some (DecimalNode 9)" using r(4) by (simp add: heap_C10_def)
  ultimately show ?thesis using r(1) by blast
qed

section \<open>Properties of the translator\<close>

subsection \<open>One node\<close>

lemma bindE_Inr:
  "bindE x f = Inr y \<Longrightarrow> \<exists>a. x = Inr a \<and> f a = Inr y"
  by (cases x) simp_all

lemma process_Inr:
  assumes "process switch h node st = Inr st'"
  shows "\<exists>nd v calls syms. deref h node = Inr nd \<and>
           switch st h nd = Inr (v, calls, syms) \<and>
           st' = st\<lparr>symbols := syms, z3context := z3context st @ calls,
                    z3expressions := um_emplace (z3expressions st) node v,
                    processed := processed st @ [node]\<rparr>"
proof (cases "deref h node")
  case (Inl e)
  then show ?thesis using assms by (simp add: process_def)
next
  case nd: (Inr nd)
  show ?thesis
  proof (cases "switch st h nd")
    case (Inl e)
    then show ?thesis using assms nd by (simp add: process_def)
  next
    case (Inr a)
    obtain v calls syms where c: "a = (v, calls, syms)" by (cases a) auto
    have "st' = st\<lparr>symbols := syms, z3context := z3context st @ calls,
                    z3expressions := um_emplace (z3expressions st) node v,
                    processed := processed st @ [node]\<rparr>"
      using assms nd Inr c by (simp add: process_def)
    then show ?thesis using nd Inr c by simp
  qed
qed

lemma um_emplace_present:
  "map_of m k = Some old \<Longrightarrow> um_emplace m k v = m"
  by (simp add: um_emplace_def)

lemma um_emplace_keeps:
  "map_of m k' = Some x \<Longrightarrow> map_of (um_emplace m k v) k' = Some x"
  by (cases "map_of m k") (auto simp add: um_emplace_def map_add_Some_iff)

lemma um_emplace_keys:
  "map fst (um_emplace m k v) = (if k \<in> set (map fst m) then map fst m else map fst m @ [k])"
proof (cases "map_of m k")
  case None
  then have "k \<notin> set (map fst m)" by (simp add: map_of_eq_None_iff)
  then show ?thesis using None by (simp add: um_emplace_def)
next
  case (Some old)
  then have "(k, old) \<in> set m" by (rule map_of_SomeD)
  then have "k \<in> set (map fst m)" by force
  then show ?thesis using Some by (simp add: um_emplace_def)
qed

lemma process_effect:
  assumes "process switch h node st = Inr st'"
  shows "processed st' = processed st @ [node]"
    and "map fst (z3expressions st') =
           (if node \<in> set (map fst (z3expressions st)) then map fst (z3expressions st)
            else map fst (z3expressions st) @ [node])"
    and "map_of (z3expressions st) k = Some x \<Longrightarrow> map_of (z3expressions st') k = Some x"
    and "node \<in> set (map fst (z3expressions st)) \<Longrightarrow> z3expressions st' = z3expressions st"
proof -
  from process_Inr [OF assms] obtain nd v calls syms where
    s: "st' = st\<lparr>symbols := syms, z3context := z3context st @ calls,
                  z3expressions := um_emplace (z3expressions st) node v,
                  processed := processed st @ [node]\<rparr>"
    by blast
  show "processed st' = processed st @ [node]" using s by simp
  show "map fst (z3expressions st') =
           (if node \<in> set (map fst (z3expressions st)) then map fst (z3expressions st)
            else map fst (z3expressions st) @ [node])"
    using s by (simp add: um_emplace_keys)
  show "map_of (z3expressions st) k = Some x \<Longrightarrow> map_of (z3expressions st') k = Some x"
    using s by (simp add: um_emplace_keeps)
  show "node \<in> set (map fst (z3expressions st)) \<Longrightarrow> z3expressions st' = z3expressions st"
  proof -
    assume "node \<in> set (map fst (z3expressions st))"
    then obtain old where "map_of (z3expressions st) node = Some old"
      by (cases "map_of (z3expressions st) node") (auto simp add: map_of_eq_None_iff)
    then show ?thesis using s by (simp add: um_emplace_present)
  qed
qed


lemma extends_by_process:
  assumes "process switch h node st = Inr st'"
  shows "extends_by st st' [node]"
  using process_effect(1,2) [OF assms] by (auto simp add: extends_by_def split: if_splits)

lemma extends_by_trans:
  assumes "extends_by st st1 xs" and "extends_by st1 st2 ys"
  shows "extends_by st st2 (xs @ ys)"
  using assms by (auto simp add: extends_by_def)




lemma convert_start_simps:
  "z3expressions (convert_start this) = []"
  "processed (convert_start this) = []"
  "symbols (convert_start this) = symbols this"
  by (simp_all add: convert_start_def TritonToZ3Ast.extend_def convert_state.fields_def)

lemma switch_STRING_first:
  "switch_kind (convert_start this) h (StringNode x) =
     Inl (case symbols this x of None \<Rightarrow> SymbolsNotFound | Some bound \<Rightarrow> OutOfRange)"
  "switch_kind_New (convert_start this) h (StringNode x) =
     Inl (case symbols this x of None \<Rightarrow> SymbolsNotFound | Some bound \<Rightarrow> OutOfRange)"
  by (simp_all add: switch_kind_def switch_kind_New_def convert_STRING_NODE_def
        convert_start_simps um_at_def split: option.splits)

lemma process_STRING_first:
  assumes "h name = Some (StringNode x)" and "name \<noteq> nullptr"
  shows "process switch_kind h name (convert_start this) =
           Inl (case symbols this x of None \<Rightarrow> SymbolsNotFound | Some bound \<Rightarrow> OutOfRange)"
    and "process switch_kind_New h name (convert_start this) =
           Inl (case symbols this x of None \<Rightarrow> SymbolsNotFound | Some bound \<Rightarrow> OutOfRange)"
proof -
  have d: "deref h name = Inr (StringNode x)" using assms by (simp add: deref_def)
  show "process switch_kind h name (convert_start this) =
           Inl (case symbols this x of None \<Rightarrow> SymbolsNotFound | Some bound \<Rightarrow> OutOfRange)"
    using d switch_STRING_first(1) [of this h x] by (simp add: process_def)
  show "process switch_kind_New h name (convert_start this) =
           Inl (case symbols this x of None \<Rightarrow> SymbolsNotFound | Some bound \<Rightarrow> OutOfRange)"
    using d switch_STRING_first(2) [of this h x] by (simp add: process_def)
qed

subsection \<open>The loops\<close>

lemma convert_loop_extends:
  "convert_loop fuel h node workStack st = Some (Inr st') \<Longrightarrow> \<exists>nodes. extends_by st st' nodes"
proof (induction fuel h node workStack st rule: convert_loop.induct)
  case (1 h node workStack st)
  then show ?case by simp
next
  case (2 fuel h node workStack st)
  show ?case
  proof (cases "node \<noteq> nullptr")
    case True
    from "2.prems" True obtain nd where nd: "deref h node = Inr nd"
      by (cases "deref h node") simp_all
    let ?ws = "node # rev (drop 1 (getChildren nd)) @ workStack"
    show ?thesis
    proof (cases "0 < length (getChildren nd)")
      case c: True
      have "convert_loop fuel h (getChildren nd ! 0) ?ws st = Some (Inr st')"
        using "2.prems" True nd c by (simp add: Let_def)
      from "2.IH"(1) [OF True nd refl refl c this] show ?thesis .
    next
      case c: False
      show ?thesis
      proof (cases "getKind nd = REFERENCE_NODE")
        case r: True
        from "2.prems" True nd c r obtain ast where ast: "ReferenceNode_getAst nd = Inr ast"
          by (cases "ReferenceNode_getAst nd") (simp_all add: Let_def)
        have "convert_loop fuel h ast ?ws st = Some (Inr st')"
          using "2.prems" True nd c r ast by (simp add: Let_def)
        from "2.IH"(2) [OF True nd refl refl c r ast this] show ?thesis .
      next
        case r: False
        have "convert_loop fuel h nullptr ?ws st = Some (Inr st')"
          using "2.prems" True nd c r by (simp add: Let_def)
        from "2.IH"(3) [OF True nd refl refl c r this] show ?thesis .
      qed
    qed
  next
    case False
    then have n: "\<not> node \<noteq> nullptr" by simp
    from "2.prems" False obtain popped rest where ws: "workStack = popped # rest"
      by (cases workStack) simp_all
    show ?thesis
    proof (cases rest)
      case Nil
      from "2.prems" False ws Nil have "process switch_kind h popped st = Inr st'"
        by (cases "process switch_kind h popped st") simp_all
      from extends_by_process [OF this] show ?thesis by blast
    next
      case (Cons below rest')
      from "2.prems" False ws Cons obtain b where b: "NodeHasRightChild h popped below = Inr b"
        by (cases "NodeHasRightChild h popped below") simp_all
      show ?thesis
      proof (cases b)
        case True
        have "convert_loop fuel h below (popped # rest') st = Some (Inr st')"
          using "2.prems" False ws Cons b True by simp
        from "2.IH"(4) [OF n ws Cons b _ this] True show ?thesis by simp
      next
        case f: False
        from "2.prems" False ws Cons b f obtain st1 where
          p: "process switch_kind h popped st = Inr st1"
          by (cases "process switch_kind h popped st") simp_all
        have "convert_loop fuel h nullptr rest st1 = Some (Inr st')"
          using "2.prems" False ws Cons b f p by simp
        from "2.IH"(5) [OF n ws Cons b _ p this] f obtain nodes where
          "extends_by st1 st' nodes" by auto
        from extends_by_trans [OF extends_by_process [OF p] this] show ?thesis by blast
      qed
    qed
  qed
qed


lemma convert_Inr:
  assumes "convert iteration fuel this h node = Some (Inr (e, st))"
  shows "node \<noteq> nullptr \<and>
         convert_loop fuel h node [] (convert_start this) = Some (Inr st) \<and>
         um_begin_second iteration (z3expressions st) = Inr e"
proof -
  have n: "node \<noteq> nullptr" using assms by (auto simp add: convert_def)
  from assms n obtain st1 where
    v: "convert_loop fuel h node [] (convert_start this) = Some (Inr st1)"
    by (cases "convert_loop fuel h node [] (convert_start this)")
       (auto simp add: convert_def split: sum.splits)
  from assms n v have
    "bindE (um_begin_second iteration (z3expressions st1)) (\<lambda>e. Inr (e, st1)) = Inr (e, st)"
    by (simp add: convert_def)
  from bindE_Inr [OF this] have "st1 = st" and
    "um_begin_second iteration (z3expressions st) = Inr e"
    by auto
  then show ?thesis using n v by simp
qed

lemma convert_New_Inr:
  assumes "convert_New iteration fuel this h node = Some (Inr (e, st))"
  shows "\<exists>visitVector. node \<noteq> nullptr \<and>
           fillWorkStack fuel h node [] = Some (Inr visitVector) \<and>
           foreach (process switch_kind_New h) visitVector (convert_start this) = Inr st \<and>
           um_begin_second iteration (z3expressions st) = Inr e"
proof -
  have n: "node \<noteq> nullptr" using assms by (auto simp add: convert_New_def)
  from assms n obtain visitVector where v: "fillWorkStack fuel h node [] = Some (Inr visitVector)"
    by (cases "fillWorkStack fuel h node []")
       (auto simp add: convert_New_def split: sum.splits)
  from assms n v have c:
    "bindE (foreach (process switch_kind_New h) visitVector (convert_start this)) (\<lambda>st.
       bindE (um_begin_second iteration (z3expressions st)) (\<lambda>e. Inr (e, st))) = Inr (e, st)"
    by (simp add: convert_New_def)
  from bindE_Inr [OF c] obtain st1 where
    s: "foreach (process switch_kind_New h) visitVector (convert_start this) = Inr st1"
    and b: "bindE (um_begin_second iteration (z3expressions st1)) (\<lambda>e. Inr (e, st1)) = Inr (e, st)"
    by blast
  from bindE_Inr [OF b] have "st1 = st" and "um_begin_second iteration (z3expressions st) = Inr e"
    by auto
  then show ?thesis using n v s by simp
qed

text \<open>Both versions return the handle of the entry that the iteration order puts first.\<close>

lemma convert_returns_first_entry:
  "convert iteration fuel this h node = Some (Inr (e, st)) \<Longrightarrow>
     \<exists>k rest. iteration (z3expressions st) = (k, e) # rest"
  "convert_New iteration fuel this h node = Some (Inr (e, st)) \<Longrightarrow>
     \<exists>k rest. iteration (z3expressions st) = (k, e) # rest"
proof -
  have a: "um_begin_second iteration m = Inr e \<Longrightarrow> \<exists>k rest. iteration m = (k, e) # rest" for m
    by (auto simp add: um_begin_second_def split: list.splits)
  show "convert iteration fuel this h node = Some (Inr (e, st)) \<Longrightarrow>
     \<exists>k rest. iteration (z3expressions st) = (k, e) # rest"
    using convert_Inr a by blast
  show "convert_New iteration fuel this h node = Some (Inr (e, st)) \<Longrightarrow>
     \<exists>k rest. iteration (z3expressions st) = (k, e) # rest"
    using convert_New_Inr a by blast
qed

lemma fillWorkStack_loop_prefix:
  "fillWorkStack_loop fuel h ws result = Some (Inr r) \<Longrightarrow> \<exists>ys. r = result @ ys"
proof (induction fuel h ws result rule: fillWorkStack_loop.induct)
  case (1 fuel h result)
  then show ?case by simp
next
  case (2 h current_item workstack result)
  then show ?case by simp
next
  case (3 fuel h current_node child_index workstack result)
  from "3.prems" obtain nd where nd: "deref h current_node = Inr nd"
    by (cases "deref h current_node") simp_all
  show ?case
  proof (cases "child_index < length (getChildren nd)")
    case True
    then show ?thesis using "3.prems" "3.IH"(1) [OF nd refl True] nd by simp
  next
    case False
    show ?thesis
    proof (cases "getKind nd = REFERENCE_NODE \<and> child_index = 0")
      case True
      from "3.prems" nd False True obtain ast where ast: "ReferenceNode_getAst nd = Inr ast"
        by (cases "ReferenceNode_getAst nd") simp_all
      show ?thesis
        using "3.prems" "3.IH"(2) [OF nd refl False True ast] nd False True ast by simp
    next
      case b: False
      have "fillWorkStack_loop fuel h workstack (result @ [current_node]) = Some (Inr r)"
        using "3.prems" nd False b by auto
      from "3.IH"(3) [OF nd refl False b this] show ?thesis by auto
    qed
  qed
qed

subsection \<open>A \<^verbatim>\<open>LET\<close> node at the root\<close>

lemma fillWorkStack_LET:
  assumes "h root = Some (AstNode LET_NODE [name, bound, body])" and "root \<noteq> nullptr"
      and "h name = Some (StringNode x)" and "name \<noteq> nullptr"
      and "fillWorkStack fuel h root [] = Some (Inr visitVector)"
  shows "\<exists>rest. visitVector = name # rest"
proof -
  have dr: "deref h root = Inr (AstNode LET_NODE [name, bound, body])"
    and dn: "deref h name = Inr (StringNode x)"
    using assms(1-4) by (simp_all add: deref_def)
  obtain f2 where fuel: "fuel = Suc (Suc f2)"
  proof (cases fuel)
    case 0
    then show ?thesis using assms(5) by (simp add: fillWorkStack_def)
  next
    case (Suc f1)
    show ?thesis
    proof (cases f1)
      case 0
      then show ?thesis using assms(5) Suc dr by (simp add: fillWorkStack_def)
    next
      case (Suc f2)
      then show ?thesis using that \<open>fuel = Suc f1\<close> by simp
    qed
  qed
  have "fillWorkStack fuel h root [] = fillWorkStack_loop f2 h [(root, 1)] [name]"
    using fuel dr dn by (simp add: fillWorkStack_def)
  with assms(5) have "fillWorkStack_loop f2 h [(root, 1)] [name] = Some (Inr visitVector)"
    by simp
  from fillWorkStack_loop_prefix [OF this] show ?thesis by simp
qed

lemma convert_loop_LET:
  assumes "h root = Some (AstNode LET_NODE [name, bound, body])" and "root \<noteq> nullptr"
      and "h name = Some (StringNode x)" and "name \<noteq> nullptr"
  shows "convert_loop fuel h root [] (convert_start this) =
           (if fuel < 3 then None
            else Some (Inl (case symbols this x of None \<Rightarrow> SymbolsNotFound
                            | Some bound \<Rightarrow> OutOfRange)))"
proof -
  have dr: "deref h root = Inr (AstNode LET_NODE [name, bound, body])"
    and dn: "deref h name = Inr (StringNode x)"
    using assms by (simp_all add: deref_def)
  have r: "NodeHasRightChild h name root = Inr False"
    using dn by (simp add: NodeHasRightChild_def)
  note p = process_STRING_first(1) [of h name x this, OF assms(3,4)]
  consider "fuel = 0" | "fuel = Suc 0" | "fuel = Suc (Suc 0)" | f where "fuel = Suc (Suc (Suc f))"
    by (metis not0_implies_Suc)
  then show ?thesis
  proof cases
    case 1
    then show ?thesis by simp
  next
    case 2
    then show ?thesis using assms(2) dr by simp
  next
    case 3
    then show ?thesis using assms(2,4) dr dn by simp
  next
    case 4
    then show ?thesis using assms(2,4) dr dn r p by simp
  qed
qed

subsection \<open>The returned expression\<close>

text \<open>
  C1. Both versions of \<^verbatim>\<open>convert\<close> return \<^verbatim>\<open>z3expressions.begin()->second\<close>: the handle
  of the entry that comes first in the library's iteration order, which need not be the
  root's. For the sum of two variables (node 3, the variables at 1 and 2) and an order
  that lists the entries oldest first, each version succeeds and returns the handle of
  the first variable, while its map holds the sum for the root; with an order that
  lists the newest entry first the same calls return the root's handle.
\<close>

theorem convert_returns_begin_not_root:
  "returned (convert (\<lambda>m. m) 20 translator_example heap_example 3) =
     Some (Z3_const ''SymVar_0'' (Z3_BV_SORT 8)) \<and>
   memoized (convert (\<lambda>m. m) 20 translator_example heap_example 3) 3 =
     Some (Z3_app2 Z3_mk_bvadd (Z3_const ''SymVar_0'' (Z3_BV_SORT 8))
             (Z3_const ''SymVar_1'' (Z3_BV_SORT 8))) \<and>
   returned (convert_New (\<lambda>m. m) 20 translator_example heap_example 3) =
     Some (Z3_const ''SymVar_0'' (Z3_BV_SORT 8)) \<and>
   memoized (convert_New (\<lambda>m. m) 20 translator_example heap_example 3) 3 =
     Some (Z3_app2 Z3_mk_bvadd (Z3_const ''SymVar_0'' (Z3_BV_SORT 8))
             (Z3_const ''SymVar_1'' (Z3_BV_SORT 8))) \<and>
   returned (convert rev 20 translator_example heap_example 3) =
     Some (Z3_app2 Z3_mk_bvadd (Z3_const ''SymVar_0'' (Z3_BV_SORT 8))
             (Z3_const ''SymVar_1'' (Z3_BV_SORT 8))) \<and>
   returned (convert_New rev 20 translator_example heap_example 3) =
     Some (Z3_app2 Z3_mk_bvadd (Z3_const ''SymVar_0'' (Z3_BV_SORT 8))
             (Z3_const ''SymVar_1'' (Z3_BV_SORT 8)))"
  by code_simp

subsection \<open>How often a node is lowered\<close>





subsection \<open>\<^verbatim>\<open>LET\<close>\<close>

text \<open>
  C4. Neither version of \<^verbatim>\<open>convert\<close> ever succeeds on a \<^verbatim>\<open>LET\<close> node. Both walk the
  children before the node, so the first node they process is the first child of the
  \<^verbatim>\<open>LET\<close>, the \<^verbatim>\<open>StringNode\<close> that holds the name; it reaches the \<^verbatim>\<open>STRING_NODE\<close> arm
  while the map is empty and before the \<^verbatim>\<open>LET_NODE\<close> arm has registered the symbol. The
  arm throws "Symbols not found" (or, when the symbol table already holds the name,
  \<^verbatim>\<open>at\<close> throws). Lowering the bound expression alone can succeed.
\<close>

theorem convert_LET_never_succeeds:
  assumes "h root = Some (AstNode LET_NODE [name, bound, body])" and "root \<noteq> nullptr"
      and "h name = Some (StringNode x)" and "name \<noteq> nullptr"
  shows "convert iteration fuel this h root \<noteq> Some (Inr r) \<and>
         convert_New iteration fuel this h root \<noteq> Some (Inr r) \<and>
         (3 \<le> fuel \<longrightarrow>
            convert iteration fuel this h root =
              Some (Inl (case symbols this x of None \<Rightarrow> SymbolsNotFound
                         | Some bound \<Rightarrow> OutOfRange))) \<and>
         (\<forall>visitVector. fillWorkStack fuel h root [] = Some (Inr visitVector) \<longrightarrow>
            convert_New iteration fuel this h root =
              Some (Inl (case symbols this x of None \<Rightarrow> SymbolsNotFound
                         | Some bound \<Rightarrow> OutOfRange)))"
proof -
  have a: "convert_New iteration fuel this h root =
              Some (Inl (case symbols this x of None \<Rightarrow> SymbolsNotFound
                         | Some bound \<Rightarrow> OutOfRange))"
    if v: "fillWorkStack fuel h root [] = Some (Inr visitVector)" for visitVector
  proof -
    from fillWorkStack_LET [OF assms v] obtain rest where "visitVector = name # rest" by blast
    then have "foreach (process switch_kind_New h) visitVector (convert_start this) =
        Inl (case symbols this x of None \<Rightarrow> SymbolsNotFound | Some bound \<Rightarrow> OutOfRange)"
      using process_STRING_first(2) [of h name x this] assms(3,4) by simp
    then show ?thesis using v assms(2) by (simp add: convert_New_def)
  qed
  have b: "convert_New iteration fuel this h root \<noteq> Some (Inr r)"
  proof (cases "fillWorkStack fuel h root []")
    case None
    then show ?thesis using assms(2) by (simp add: convert_New_def)
  next
    case (Some res)
    show ?thesis
    proof (cases res)
      case (Inl e)
      then show ?thesis using Some assms(2) by (simp add: convert_New_def)
    next
      case (Inr visitVector)
      then show ?thesis using a [of visitVector] Some by simp
    qed
  qed
  note l = convert_loop_LET [OF assms, of fuel this]
  have c: "convert iteration fuel this h root \<noteq> Some (Inr r)"
    using l assms(2) by (simp add: convert_def)
  have d: "3 \<le> fuel \<longrightarrow>
            convert iteration fuel this h root =
              Some (Inl (case symbols this x of None \<Rightarrow> SymbolsNotFound
                         | Some bound \<Rightarrow> OutOfRange))"
    using l assms(2) by (simp add: convert_def)
  show ?thesis using a b c d by blast
qed

theorem convert_LET_never_succeeds_witness:
  "convert rev 20 translator_example heap_example 7 = Some (Inl SymbolsNotFound) \<and>
   convert_New rev 20 translator_example heap_example 7 = Some (Inl SymbolsNotFound) \<and>
   returned (convert rev 20 translator_example heap_example 1) =
     Some (Z3_const ''SymVar_0'' (Z3_BV_SORT 8)) \<and>
   returned (convert_New rev 20 translator_example heap_example 1) =
     Some (Z3_const ''SymVar_0'' (Z3_BV_SORT 8))"
proof -
  have a: "heap_example 7 = Some (AstNode LET_NODE [5, 1, 6])" "7 \<noteq> nullptr"
    "heap_example 5 = Some (StringNode ''x'')" "5 \<noteq> nullptr"
    by (simp_all add: heap_example_def nullptr_def)
  have f: "fillWorkStack 20 heap_example 7 [] = Some (Inr [5, 1, 6, 7])"
    by code_simp
  have s: "symbols translator_example ''x'' = None"
    by (simp add: translator_example_def)
  have b: "returned (convert rev 20 translator_example heap_example 1) =
       Some (Z3_const ''SymVar_0'' (Z3_BV_SORT 8))"
    "returned (convert_New rev 20 translator_example heap_example 1) =
       Some (Z3_const ''SymVar_0'' (Z3_BV_SORT 8))"
    by code_simp+
  from convert_LET_never_succeeds [OF a, of rev 20 translator_example] f s
  have "convert rev 20 translator_example heap_example 7 = Some (Inl SymbolsNotFound)"
    "convert_New rev 20 translator_example heap_example 7 = Some (Inl SymbolsNotFound)"
    by simp_all
  then show ?thesis using b by simp
qed

end
